theory Spec2Isabelle
  imports Complex_Main "HOL-Library.Multiset"
begin

section \<open>Task objects and scheduler state\<close>

text \<open>
  The simulator of \<^verbatim>\<open>base_escalonador.py\<close> works on Python numbers: integers, and
  floats as soon as a duration is one or the 0.3 overhead has been added to the clock.
  A number is embedded as the rational it denotes. In the definitions of the schedulers the
  arithmetic (\<open>+\<close>, \<open>-\<close>, \<open>/\<close>, \<open>//\<close>, \<open>min\<close>, \<open>max\<close>, \<^verbatim>\<open>math.ceil\<close>) is exact, as
  Python's is on integers; the rounding of float results is written out in the section
  on Round-Robin with binary64 arithmetic, which gives the values of a run with floats.

  Task objects are mutable and shared by reference between \<^verbatim>\<open>self.tarefas\<close>, the
  deque \<^verbatim>\<open>fila\<close> and the local variable \<^verbatim>\<open>tarefa\<close>. A reference is a
  natural number, and the objects live in a store \<open>mem\<close> from references to records.
\<close>

type_synonym ref = nat

record TarefaCAV =
  nome :: string
  duracao :: rat
  prioridade :: rat
  tempo_restante :: rat
  tempo_inicio :: "rat option"
  tempo_final :: "rat option"
  tempo_chegada :: rat
  tempo_em_espera :: rat
  tempo_de_resposta :: "rat option"
  tempo_inicio_execucao_atual :: "rat option"
  tempo_final_execucao_atual :: "rat option"
  deadline :: "rat option"
  possivelmente_catastrofico :: bool
  tempos_execucao :: "(rat \<times> rat) list"

text \<open>\<^verbatim>\<open>TarefaCAV.__init__(nome, duracao, tempo_chegada, possivelmente_catastrofico, prioridade, deadline)\<close>\<close>

definition TarefaCAV_init ::
  "string \<Rightarrow> rat \<Rightarrow> rat \<Rightarrow> bool \<Rightarrow> rat \<Rightarrow> rat option \<Rightarrow> TarefaCAV" where
  "TarefaCAV_init n d c pc p dl =
     \<lparr> nome = n, duracao = d, prioridade = p, tempo_restante = d,
       tempo_inicio = None, tempo_final = None, tempo_chegada = c,
       tempo_em_espera = 0, tempo_de_resposta = None,
       tempo_inicio_execucao_atual = None, tempo_final_execucao_atual = None,
       deadline = dl, possivelmente_catastrofico = pc, tempos_execucao = [] \<rparr>"

text \<open>\<^verbatim>\<open>TarefaCAV.executar(quantum)\<close>: the updated task and the returned \<^verbatim>\<open>tempo_exec\<close>.\<close>

definition executar :: "TarefaCAV \<Rightarrow> rat \<Rightarrow> TarefaCAV \<times> rat" where
  "executar t q =
     (let tempo_exec = min (tempo_restante t) q
      in (t\<lparr>tempo_restante := tempo_restante t - tempo_exec\<rparr>, tempo_exec))"

text \<open>
  One record holds everything a run reads and writes: the object store, the fields of
  the scheduler object (\<open>quantum\<close> exists in the quantum-based subclasses,
  \<open>quantum_atual\<close> in \<^verbatim>\<open>EscalonadorUG\<close> only), and the two local variables of
  \<^verbatim>\<open>escalonar\<close> that survive a loop iteration, \<^verbatim>\<open>fila\<close> and \<^verbatim>\<open>tarefa\<close>.

  \<open>finais\<close> is a history variable that no source statement reads: every execution of
  the assignment \<^verbatim>\<open>tarefa.tempo_final = self.tempo_atual\<close> appends the reference of the
  task and the value \<^verbatim>\<open>tarefa.tempo_restante\<close> has at that moment.
\<close>

record estado =
  mem :: "ref \<Rightarrow> TarefaCAV"
  tarefas :: "ref list"
  menor_tarefa :: "ref option"
  sobrecarga_total :: rat
  tempo_atual :: rat
  quantum :: rat
  quantum_atual :: rat
  fila :: "ref list"
  tarefa :: "ref option"
  finais :: "(ref \<times> rat) list"

text \<open>\<^verbatim>\<open>EscalonadorCAV.__init__\<close>, and the subclasses' \<^verbatim>\<open>__init__(quantum)\<close>.\<close>

definition EscalonadorCAV_init :: "(ref \<Rightarrow> TarefaCAV) \<Rightarrow> estado" where
  "EscalonadorCAV_init m =
     \<lparr> mem = m, tarefas = [], menor_tarefa = None, sobrecarga_total = 0,
       tempo_atual = 0, quantum = 0, quantum_atual = 0, fila = [], tarefa = None,
       finais = [] \<rparr>"

definition Escalonador_quantum_init :: "(ref \<Rightarrow> TarefaCAV) \<Rightarrow> rat \<Rightarrow> estado" where
  "Escalonador_quantum_init m q =
     (EscalonadorCAV_init m)\<lparr>quantum := q, quantum_atual := q\<rparr>"

text \<open>\<^verbatim>\<open>adicionar_tarefa\<close>: append, and keep the task of smallest duration seen so far.\<close>

definition adicionar_tarefa :: "estado \<Rightarrow> ref \<Rightarrow> estado" where
  "adicionar_tarefa s a =
     (let s1 = s\<lparr>tarefas := tarefas s @ [a]\<rparr>
      in case menor_tarefa s1 of
           None \<Rightarrow> s1\<lparr>menor_tarefa := Some a\<rparr>
         | Some b \<Rightarrow>
             if duracao (mem s1 a) < duracao (mem s1 b)
             then s1\<lparr>menor_tarefa := Some a\<rparr> else s1)"

definition registrar_sobrecarga :: "estado \<Rightarrow> rat \<Rightarrow> estado" where
  "registrar_sobrecarga s tempo = s\<lparr>sobrecarga_total := sobrecarga_total s + tempo\<rparr>"

text \<open>Update of one object of the store.\<close>

definition atualizar :: "estado \<Rightarrow> ref \<Rightarrow> TarefaCAV \<Rightarrow> estado" where
  "atualizar s a t = s\<lparr>mem := (mem s)(a := t)\<rparr>"

text \<open>\<^verbatim>\<open>self.tarefas.sort(key=lambda tarefa: tarefa.tempo_chegada)\<close>; Python's sort is stable,
  as the insertion sort \<open>sort_key\<close> is.\<close>

definition ordenar_tarefas :: "estado \<Rightarrow> estado" where
  "ordenar_tarefas s = s\<lparr>tarefas := sort_key (\<lambda>a. tempo_chegada (mem s a)) (tarefas s)\<rparr>"

text \<open>\<^verbatim>\<open>[tarefa for tarefa in fila if tarefa.tempo_chegada <= self.tempo_atual]\<close>\<close>

definition tarefas_que_chegaram :: "estado \<Rightarrow> ref list" where
  "tarefas_que_chegaram s =
     filter (\<lambda>a. tempo_chegada (mem s a) \<le> tempo_atual s) (fila s)"

section \<open>Errors and the shared \<^verbatim>\<open>while fila:\<close> loop\<close>

datatype erro = TypeError | UnboundLocalError

text \<open>
  \<^verbatim>\<open>while fila: <body>\<close>. The body is a step function that returns the next state or the
  exception that leaves \<^verbatim>\<open>escalonar\<close>. A run that never leaves the loop has the value
  \<open>None\<close>.
\<close>

partial_function (option) laco :: "(estado \<Rightarrow> erro + estado) \<Rightarrow> estado \<Rightarrow> (erro + estado) option"
  where
  "laco passo s =
     (if fila s = [] then Some (Inr s)
      else case passo s of Inl e \<Rightarrow> Some (Inl e) | Inr s' \<Rightarrow> laco passo s')"

declare laco.simps [code]

text \<open>The first \<open>n\<close> iterations of the same loop: the states a run goes through.\<close>

fun iterar :: "(estado \<Rightarrow> erro + estado) \<Rightarrow> nat \<Rightarrow> estado \<Rightarrow> erro + estado" where
  "iterar passo 0 s = Inr s"
| "iterar passo (Suc n) s =
     (if fila s = [] then Inr s
      else case passo s of Inl e \<Rightarrow> Inl e | Inr s' \<Rightarrow> iterar passo n s')"

text \<open>
  The prologue every \<^verbatim>\<open>escalonar\<close> but FIFO's shares:
  \<^verbatim>\<open>self.tarefas.sort(...); fila = deque(self.tarefas)\<close>, then under
  \<^verbatim>\<open>if len(self.tarefas) > 0\<close> the clock is set to the first arrival and the loop runs.
\<close>

definition preparar :: "estado \<Rightarrow> estado" where
  "preparar s = (let s1 = ordenar_tarefas s in s1\<lparr>fila := tarefas s1\<rparr>)"

definition relogio_inicial :: "estado \<Rightarrow> estado" where
  "relogio_inicial s = s\<lparr>tempo_atual := tempo_chegada (mem s (hd (tarefas s)))\<rparr>"

definition escalonar_com :: "(estado \<Rightarrow> erro + estado) \<Rightarrow> estado \<Rightarrow> (erro + estado) option" where
  "escalonar_com passo s =
     (let s1 = preparar s
      in if length (tarefas s1) > 0 then laco passo (relogio_inicial s1) else Some (Inr s1))"

section \<open>FIFO\<close>

definition FIFO_corpo :: "estado \<Rightarrow> ref \<Rightarrow> estado" where
  "FIFO_corpo s a =
     (let t = mem s a;
          inicio = max (tempo_atual s) (tempo_chegada t);
          fim = inicio + duracao t;
          t' = t\<lparr> tempo_inicio := Some inicio,
                  tempo_inicio_execucao_atual := Some inicio,
                  tempo_final_execucao_atual := Some fim,
                  tempos_execucao := tempos_execucao t @ [(inicio, fim)],
                  tempo_final := Some fim,
                  tempo_em_espera := inicio - tempo_chegada t,
                  tempo_de_resposta := Some (inicio - tempo_chegada t) \<rparr>
      in (atualizar s a t')\<lparr> tempo_atual := fim,
                              finais := finais s @ [(a, tempo_restante t)] \<rparr>)"

definition EscalonadorFIFO_escalonar :: "estado \<Rightarrow> estado" where
  "EscalonadorFIFO_escalonar s =
     (let s1 = ordenar_tarefas s
      in if length (tarefas s1) > 0
         then foldl FIFO_corpo (relogio_inicial s1) (tarefas s1)
         else s1)"

section \<open>SJF\<close>

text \<open>The run-to-completion block of SJF's loop body, for the task bound to
  \<^verbatim>\<open>tarefa\<close>.\<close>

definition SJF_executar :: "estado \<Rightarrow> ref \<Rightarrow> estado" where
  "SJF_executar s a =
     (let t = mem s a;
          inicio = max (tempo_atual s) (tempo_chegada t);
          fim = inicio + duracao t;
          t' = t\<lparr> tempo_inicio := Some inicio,
                  tempo_inicio_execucao_atual := Some inicio,
                  tempo_final_execucao_atual := Some fim,
                  tempos_execucao := tempos_execucao t @ [(inicio, fim)],
                  tempo_final := Some fim,
                  tempo_em_espera := inicio - tempo_chegada t,
                  tempo_de_resposta := Some (inicio - tempo_chegada t) \<rparr>
      in (atualizar s a t')\<lparr> tempo_atual := fim,
                              finais := finais s @ [(a, tempo_restante t)] \<rparr>)"

text \<open>
  The body selects only under \<^verbatim>\<open>if len(tarefas_que_chegaram) > 0\<close>; the rest of the body
  is outside that \<^verbatim>\<open>if\<close> and runs with whatever \<^verbatim>\<open>tarefa\<close> is bound to.
\<close>

definition SJF_passo :: "estado \<Rightarrow> erro + estado" where
  "SJF_passo s =
     (let chegaram = sort_key (\<lambda>a. duracao (mem s a)) (tarefas_que_chegaram s);
          s1 = (if length chegaram > 0
                then s\<lparr>tarefa := Some (hd chegaram), fila := remove1 (hd chegaram) (fila s)\<rparr>
                else s)
      in case tarefa s1 of
           None \<Rightarrow> Inl UnboundLocalError
         | Some a \<Rightarrow> Inr (SJF_executar s1 a))"

definition EscalonadorSJF_escalonar :: "estado \<Rightarrow> (erro + estado) option" where
  "EscalonadorSJF_escalonar s = escalonar_com SJF_passo (s\<lparr>tarefa := None\<rparr>)"

section \<open>Non-preemptive priority\<close>

text \<open>\<^verbatim>\<open>sort(key=prioridade, reverse=True)\<close> keeps the order of equal keys: a stable sort
  on the negated key.\<close>

definition PrioridadeNP_passo :: "estado \<Rightarrow> erro + estado" where
  "PrioridadeNP_passo s =
     (let chegaram = tarefas_que_chegaram s
      in if length chegaram = 0 then Inr (s\<lparr>tempo_atual := tempo_atual s + 1\<rparr>)
         else
           let ordenadas = sort_key (\<lambda>a. - prioridade (mem s a)) chegaram;
               a = hd ordenadas;
               t = mem s a;
               inicio = tempo_atual s;
               fim = inicio + duracao t;
               t' = t\<lparr> tempo_inicio := Some inicio,
                       tempo_inicio_execucao_atual := Some inicio,
                       tempo_final := Some fim,
                       tempo_de_resposta := Some (inicio - tempo_chegada t),
                       tempo_em_espera := inicio - tempo_chegada t,
                       tempo_final_execucao_atual := Some fim,
                       tempos_execucao := tempos_execucao t @ [(inicio, fim)] \<rparr>
           in Inr ((atualizar s a t')\<lparr> tarefa := Some a,
                                       fila := remove1 a (fila s),
                                       tempo_atual := fim,
                                       finais := finais s @ [(a, tempo_restante t)] \<rparr>))"

definition EscalonadorPrioridadeNP_escalonar :: "estado \<Rightarrow> (erro + estado) option" where
  "EscalonadorPrioridadeNP_escalonar s = escalonar_com PrioridadeNP_passo s"

section \<open>The quantum-based schedulers\<close>

text \<open>
  \<^verbatim>\<open>EscalonadorRoundRobin\<close>, \<^verbatim>\<open>EscalonadorEDF\<close>, \<^verbatim>\<open>EscalonadorPrioridadeP\<close>,
  \<^verbatim>\<open>EscalonadorUG\<close> and the five \<^verbatim>\<open>EscalonadorFutureVision*\<close> classes repeat one loop
  body, statement for statement. They differ in the block that binds \<^verbatim>\<open>tarefa\<close>, and
  \<^verbatim>\<open>EscalonadorUG\<close> in how \<^verbatim>\<open>tempo_exec\<close> is computed and in one statement after
  \<^verbatim>\<open>tempo_final\<close> is set. The body is written once, with the class as a parameter;
  \<open>UG\<close> carries the argument \<^verbatim>\<open>urg_max\<close> of its \<^verbatim>\<open>escalonar\<close> (default \<^verbatim>\<open>1/2\<close>).
\<close>

datatype classe =
    RoundRobin | EDF | PrioridadeP | UG rat
  | FutureVision | FutureVisionMedia | FutureVisionMediaIntervalo
  | FutureVisionMin | FutureVisionMax

text \<open>
  \<^verbatim>\<open>tarefas_que_chegaram.sort(key=lambda tarefa: tarefa.deadline)\<close>. A deadline is a number
  or \<^verbatim>\<open>None\<close>, and Python's \<^verbatim>\<open><\<close> raises \<^verbatim>\<open>TypeError\<close> when an operand is
  \<^verbatim>\<open>None\<close>. Sorting a list of two or more keys compares every key with another one;
  sorting a shorter list compares nothing.
\<close>

definition ordenar_por_deadline :: "(ref \<Rightarrow> TarefaCAV) \<Rightarrow> ref list \<Rightarrow> erro + ref list" where
  "ordenar_por_deadline m xs =
     (if 2 \<le> length xs \<and> list_ex (\<lambda>a. deadline (m a) = None) xs then Inl TypeError
      else Inr (sort_key (\<lambda>a. case deadline (m a) of Some d \<Rightarrow> d | None \<Rightarrow> 0) xs))"

text \<open>The five \<^verbatim>\<open>limite\<close> methods; the argument is the arrived list, already sorted by
  remaining time.\<close>

definition duracao_media :: "(ref \<Rightarrow> TarefaCAV) \<Rightarrow> ref list \<Rightarrow> rat" where
  "duracao_media m xs = sum_list (map (\<lambda>a. tempo_restante (m a)) xs) / of_nat (length xs)"

definition chegada_media :: "(ref \<Rightarrow> TarefaCAV) \<Rightarrow> ref list \<Rightarrow> rat" where
  "chegada_media m xs = sum_list (map (\<lambda>a. tempo_chegada (m a)) xs) / of_nat (length xs)"

definition mediana_chegada :: "(ref \<Rightarrow> TarefaCAV) \<Rightarrow> ref list \<Rightarrow> rat" where
  "mediana_chegada m xs =
     (if length xs mod 2 = 0
      then (tempo_chegada (m (xs ! (length xs div 2 - 1)))
            + tempo_chegada (m (xs ! (length xs div 2)))) / 2
      else tempo_chegada (m (xs ! (length xs div 2))))"

definition chegada_media_intervalo :: "(ref \<Rightarrow> TarefaCAV) \<Rightarrow> ref list \<Rightarrow> rat" where
  "chegada_media_intervalo m xs =
     (let min_chegada = foldl (\<lambda>v a. min v (tempo_chegada (m a))) (tempo_chegada (m (hd xs))) xs;
          max_chegada = foldl (\<lambda>v a. max v (tempo_chegada (m a))) (tempo_chegada (m (hd xs))) xs
      in of_int \<lfloor>(min_chegada + max_chegada) / 2\<rfloor>)"

fun limite :: "classe \<Rightarrow> (ref \<Rightarrow> TarefaCAV) \<Rightarrow> ref list \<Rightarrow> rat" where
  "limite FutureVision m xs =
     (if length xs > 0 then duracao_media m xs + mediana_chegada m xs else 0)"
| "limite FutureVisionMedia m xs =
     (if length xs > 0 then duracao_media m xs + chegada_media m xs else 0)"
| "limite FutureVisionMediaIntervalo m xs =
     (if length xs > 0 then duracao_media m xs + chegada_media_intervalo m xs else 0)"
| "limite FutureVisionMin m xs =
     (if length xs > 0
      then duracao_media m xs
           + min (chegada_media m xs) (min (chegada_media_intervalo m xs) (mediana_chegada m xs))
      else 0)"
| "limite FutureVisionMax m xs =
     (if length xs > 0
      then duracao_media m xs
           + max (chegada_media m xs) (max (chegada_media_intervalo m xs) (mediana_chegada m xs))
      else 0)"
| "limite _ m xs = 0"

text \<open>The waiting time the \<^verbatim>\<open>FutureVision\<close> scan computes for a candidate \<^verbatim>\<open>t\<close>.\<close>

definition tempo_aguardando :: "estado \<Rightarrow> ref \<Rightarrow> rat" where
  "tempo_aguardando s a =
     (case tempo_final_execucao_atual (mem s a) of
        Some f \<Rightarrow> tempo_atual s - f
      | None \<Rightarrow> tempo_atual s - tempo_chegada (mem s a))"

text \<open>The block that binds \<^verbatim>\<open>tarefa\<close>, for a non-empty arrived list.\<close>

definition selecionar_FV :: "classe \<Rightarrow> estado \<Rightarrow> ref list \<Rightarrow> ref" where
  "selecionar_FV c s chegaram =
     (let ordenadas = sort_key (\<lambda>a. tempo_restante (mem s a)) chegaram
      in case find (\<lambda>t. tempo_aguardando s t > limite c (mem s) ordenadas) ordenadas of
           None \<Rightarrow> hd ordenadas
         | Some t \<Rightarrow> t)"

fun selecionar :: "classe \<Rightarrow> estado \<Rightarrow> ref list \<Rightarrow> erro + ref" where
  "selecionar RoundRobin s chegaram = Inr (hd chegaram)"
| "selecionar EDF s chegaram =
     (case ordenar_por_deadline (mem s) chegaram of
        Inl e \<Rightarrow> Inl e
      | Inr ordenadas \<Rightarrow> Inr (hd ordenadas))"
| "selecionar PrioridadeP s chegaram =
     Inr (last (sort_key (\<lambda>a. prioridade (mem s a)) chegaram))"
| "selecionar (UG urg_max) s chegaram =
     Inr (last (sort_key (\<lambda>a. prioridade (mem s a)) chegaram))"
| "selecionar c s chegaram = Inr (selecionar_FV c s chegaram)"

text \<open>\<^verbatim>\<open>EscalonadorUG.urgencia\<close>; \<^verbatim>\<open>deadline > tempo_resta\<close> raises when the deadline is
  \<^verbatim>\<open>None\<close>.\<close>

definition urgencia :: "rat \<Rightarrow> rat option \<Rightarrow> rat \<Rightarrow> rat \<Rightarrow> erro + rat" where
  "urgencia p dl tempo_resta urg_max =
     (case dl of
        None \<Rightarrow> Inl TypeError
      | Some d \<Rightarrow> if d > tempo_resta then Inr (p / (d - tempo_resta)) else Inr (urg_max + 1))"

text \<open>
  How much time the dispatch grants: the new \<^verbatim>\<open>quantum_atual\<close>, \<^verbatim>\<open>tempo_exec\<close>, and
  whether the task counted as urgent (\<^verbatim>\<open>urgencia > urg_max\<close>, \<^verbatim>\<open>EscalonadorUG\<close> only).
\<close>

definition conceder :: "classe \<Rightarrow> estado \<Rightarrow> TarefaCAV \<Rightarrow> erro + (rat \<times> rat \<times> bool)" where
  "conceder c s t =
     (case c of
        UG urg_max \<Rightarrow>
          (case urgencia (prioridade t) (deadline t) (tempo_restante t) urg_max of
             Inl e \<Rightarrow> Inl e
           | Inr u \<Rightarrow>
               if u > urg_max
               then Inr (quantum_atual s + 1, min (tempo_restante t) (quantum_atual s + 1), True)
               else Inr (quantum_atual s, min (tempo_restante t) (quantum s), False))
      | _ \<Rightarrow> Inr (quantum_atual s, min (tempo_restante t) (quantum s), False))"

text \<open>
  The re-insertion loop
  \<^verbatim>\<open>for i in range(len(fila)): if fila[i].tempo_chegada > self.tempo_atual: insert(i); break;
  if i == len(fila) - 1: append\<close>, and \<^verbatim>\<open>append\<close> on an empty deque: before the first
  queued task that has not arrived at the clock, else at the end.
\<close>

fun reinserir :: "(ref \<Rightarrow> TarefaCAV) \<Rightarrow> rat \<Rightarrow> ref \<Rightarrow> ref list \<Rightarrow> ref list" where
  "reinserir m agora a [] = [a]"
| "reinserir m agora a (b # bs) =
     (if tempo_chegada (m b) > agora then a # b # bs else b # reinserir m agora a bs)"

text \<open>
  The field updates of one burst on the dispatched task, in the order of the source:
  \<^verbatim>\<open>tempo_inicio_execucao_atual\<close>, \<^verbatim>\<open>tempo_inicio\<close> (kept when already set),
  \<^verbatim>\<open>tempo_em_espera\<close> (the start minus the end of the previous burst, or minus 0 when
  there is none), \<^verbatim>\<open>tempo_final_execucao_atual\<close>, the appended burst,
  \<^verbatim>\<open>tempo_restante\<close> and \<^verbatim>\<open>tempo_de_resposta\<close>.
\<close>

definition executar_burst :: "TarefaCAV \<Rightarrow> rat \<Rightarrow> rat \<Rightarrow> TarefaCAV" where
  "executar_burst t inicio tempo_exec =
     (let primeiro = (case tempo_inicio t of None \<Rightarrow> inicio | Some i \<Rightarrow> i);
          espera = tempo_em_espera t
            + (inicio - (case tempo_final_execucao_atual t of Some f \<Rightarrow> f | None \<Rightarrow> 0));
          fim = inicio + tempo_exec
      in t\<lparr> tempo_inicio_execucao_atual := Some inicio,
              tempo_inicio := Some primeiro,
              tempo_em_espera := espera,
              tempo_final_execucao_atual := Some fim,
              tempos_execucao := tempos_execucao t @ [(inicio, fim)],
              tempo_restante := tempo_restante t - tempo_exec,
              tempo_de_resposta := Some (primeiro - tempo_chegada t) \<rparr>)"

text \<open>The block under \<^verbatim>\<open>if tarefa.tempo_restante > 0:\<close>, for the task \<open>a\<close> just removed
  from the deque.\<close>

definition despachar :: "classe \<Rightarrow> estado \<Rightarrow> ref \<Rightarrow> erro + estado" where
  "despachar c s a =
     (let t = mem s a;
          inicio = max (tempo_atual s) (tempo_chegada t)
      in case conceder c s t of
           Inl e \<Rightarrow> Inl e
         | Inr (qa, tempo_exec, urgente) \<Rightarrow>
             let fim = inicio + tempo_exec;
                 t' = executar_burst t inicio tempo_exec;
                 s1 = (atualizar s a t')\<lparr>quantum_atual := qa, tempo_atual := fim\<rparr>
             in if tempo_restante t' > 0
                then
                  let s2 = (registrar_sobrecarga s1 (3 / 10))\<lparr>tempo_atual := fim + 3 / 10\<rparr>
                  in Inr (s2\<lparr>fila := reinserir (mem s2) (tempo_atual s2) a (fila s2)\<rparr>)
                else
                  let s2 = (atualizar s1 a (t'\<lparr>tempo_final := Some fim\<rparr>))
                             \<lparr>finais := finais s1 @ [(a, tempo_restante t')]\<rparr>
                  in Inr (if urgente then s2\<lparr>quantum_atual := quantum s2\<rparr> else s2))"

definition passo :: "classe \<Rightarrow> estado \<Rightarrow> erro + estado" where
  "passo c s =
     (let chegaram = tarefas_que_chegaram s
      in if length chegaram = 0
         then Inr (s\<lparr>tempo_atual := of_int \<lceil>tempo_atual s + 1\<rceil>\<rparr>)
         else
           case selecionar c s chegaram of
             Inl e \<Rightarrow> Inl e
           | Inr a \<Rightarrow>
               let s1 = s\<lparr>tarefa := Some a, fila := remove1 a (fila s)\<rparr>
               in if tempo_restante (mem s1 a) > 0 then despachar c s1 a else Inr s1)"

definition escalonar :: "classe \<Rightarrow> estado \<Rightarrow> (erro + estado) option" where
  "escalonar c s = escalonar_com (passo c) s"

section \<open>Round-Robin with binary64 arithmetic\<close>

text \<open>
  A Python \<^verbatim>\<open>float\<close> is an IEEE 754 binary64 number, and the result of \<open>+\<close> or \<open>-\<close> with a
  float operand is the exact result rounded to the nearest binary64, ties to the even
  significand. \<open>arredondar x\<close> is that rounding of the rational \<open>x\<close>: \<open>expoente x\<close> is the
  exponent of the unit in the last place, 52 binary places below the leading bit of \<open>x\<close>
  and never below \<open>-1074\<close>, and \<open>x\<close> is rounded to the nearest multiple of
  \<open>dois_elevado (expoente x)\<close>. \<open>bits n\<close> is the length of the binary numeral of \<open>n\<close>.

  \<open>arredondar\<close> leaves every integer of magnitude up to \<open>2 ^ 53\<close> and every binary64
  as it is, so rounding the result of an operation on two such Python integers gives the
  exact result that Python computes. Infinities and integers beyond \<open>2 ^ 53\<close> are outside
  this section: a result of magnitude \<open>2 ^ 1024\<close> or more is \<^verbatim>\<open>inf\<close> in Python and is
  not represented here.
\<close>

function bits :: "int \<Rightarrow> int" where
  "bits n = (if n \<le> 0 then 0 else 1 + bits (n div 2))"
  by pat_completeness auto

termination
  by (relation "measure nat") auto

declare bits.simps [simp del]

definition dois_elevado :: "int \<Rightarrow> rat" where
  "dois_elevado e = (if 0 \<le> e then of_int (2 ^ nat e) else 1 / of_int (2 ^ nat (- e)))"

definition expoente :: "rat \<Rightarrow> int" where
  "expoente x =
     (let (p, q) = quotient_of \<bar>x\<bar>;
          k = bits p - bits q;
          e = (if dois_elevado k \<le> \<bar>x\<bar> then k else k - 1)
      in max (e - 52) (- 1074))"

definition inteiro_mais_proximo :: "rat \<Rightarrow> int" where
  "inteiro_mais_proximo y =
     (let f = \<lfloor>y\<rfloor>; r = y - of_int f
      in if r < 1 / 2 then f else if 1 / 2 < r then f + 1 else if even f then f else f + 1)"

definition arredondar :: "rat \<Rightarrow> rat" where
  "arredondar x =
     (if x = 0 then 0
      else let e = expoente x
           in of_int (inteiro_mais_proximo (x / dois_elevado e)) * dois_elevado e)"

text \<open>Python's \<open>x + y\<close> and \<open>x - y\<close> on such numbers.\<close>

definition mais :: "rat \<Rightarrow> rat \<Rightarrow> rat" where
  "mais x y = arredondar (x + y)"

definition menos :: "rat \<Rightarrow> rat \<Rightarrow> rat" where
  "menos x y = arredondar (x - y)"

text \<open>
  \<^verbatim>\<open>EscalonadorRoundRobin.escalonar\<close> once more, statement for statement, with the
  rounding of every sum and difference written out; the literal \<^verbatim>\<open>0.3\<close> is the binary64
  \<open>arredondar (3 / 10)\<close>. \<open>RoundRobin_burst\<close> is the field updates of one burst,
  \<open>RoundRobin_despachar\<close> the block under \<^verbatim>\<open>if tarefa.tempo_restante > 0:\<close> and
  \<open>RoundRobin_passo\<close> the loop body.
\<close>

definition RoundRobin_burst :: "TarefaCAV \<Rightarrow> rat \<Rightarrow> rat \<Rightarrow> TarefaCAV" where
  "RoundRobin_burst t inicio tempo_exec =
     (let primeiro = (case tempo_inicio t of None \<Rightarrow> inicio | Some i \<Rightarrow> i);
          espera = mais (tempo_em_espera t)
                     (menos inicio (case tempo_final_execucao_atual t of Some f \<Rightarrow> f | None \<Rightarrow> 0));
          fim = mais inicio tempo_exec
      in t\<lparr> tempo_inicio_execucao_atual := Some inicio,
              tempo_inicio := Some primeiro,
              tempo_em_espera := espera,
              tempo_final_execucao_atual := Some fim,
              tempos_execucao := tempos_execucao t @ [(inicio, fim)],
              tempo_restante := menos (tempo_restante t) tempo_exec,
              tempo_de_resposta := Some (menos primeiro (tempo_chegada t)) \<rparr>)"

definition RoundRobin_despachar :: "estado \<Rightarrow> ref \<Rightarrow> estado" where
  "RoundRobin_despachar s a =
     (let t = mem s a;
          inicio = max (tempo_atual s) (tempo_chegada t);
          tempo_exec = min (tempo_restante t) (quantum s);
          fim = mais inicio tempo_exec;
          t' = RoundRobin_burst t inicio tempo_exec;
          s1 = (atualizar s a t')\<lparr>tempo_atual := fim\<rparr>
      in if tempo_restante t' > 0
         then
           let s2 = s1\<lparr> sobrecarga_total := mais (sobrecarga_total s1) (arredondar (3 / 10)),
                         tempo_atual := mais fim (arredondar (3 / 10)) \<rparr>
           in s2\<lparr>fila := reinserir (mem s2) (tempo_atual s2) a (fila s2)\<rparr>
         else
           (atualizar s1 a (t'\<lparr>tempo_final := Some fim\<rparr>))
             \<lparr>finais := finais s1 @ [(a, tempo_restante t')]\<rparr>)"

definition RoundRobin_passo :: "estado \<Rightarrow> erro + estado" where
  "RoundRobin_passo s =
     (let chegaram = tarefas_que_chegaram s
      in if length chegaram = 0
         then Inr (s\<lparr>tempo_atual := of_int \<lceil>mais (tempo_atual s) 1\<rceil>\<rparr>)
         else
           let a = hd chegaram;
               s1 = s\<lparr>tarefa := Some a, fila := remove1 a (fila s)\<rparr>
           in if tempo_restante (mem s1 a) > 0 then Inr (RoundRobin_despachar s1 a) else Inr s1)"

definition EscalonadorRoundRobin_escalonar :: "estado \<Rightarrow> (erro + estado) option" where
  "EscalonadorRoundRobin_escalonar s = escalonar_com RoundRobin_passo s"

section \<open>Observations and example inputs\<close>

text \<open>The total length of the bursts recorded on a task.\<close>

definition soma_bursts :: "TarefaCAV \<Rightarrow> rat" where
  "soma_bursts t = sum_list (map (\<lambda>(inicio, fim). fim - inicio) (tempos_execucao t))"

text \<open>A store with the given tasks at the references \<open>0, 1, \<dots>\<close>.\<close>

definition memoria :: "TarefaCAV list \<Rightarrow> ref \<Rightarrow> TarefaCAV" where
  "memoria ts a = (if a < length ts then ts ! a else TarefaCAV_init [] 0 0 False 1 None)"

text \<open>What a driver does with a fresh scheduler: \<^verbatim>\<open>for t in tarefas: adicionar_tarefa(t)\<close>.\<close>

definition carregar :: "estado \<Rightarrow> ref list \<Rightarrow> estado" where
  "carregar s as = foldl adicionar_tarefa s as"

text \<open>Round-Robin scenario: quantum 2, A (duration 5, arrival 0), B (duration 3, arrival 0).\<close>

definition cenario_RR :: estado where
  "cenario_RR =
     carregar (Escalonador_quantum_init
                 (memoria [TarefaCAV_init ''A'' 5 0 False 1 None,
                           TarefaCAV_init ''B'' 3 0 False 1 None]) 2) [0, 1]"

text \<open>SJF with an idle gap: A (duration 2, arrival 0), B (duration 1, arrival 5).\<close>

definition cenario_SJF :: estado where
  "cenario_SJF =
     carregar (EscalonadorCAV_init
                 (memoria [TarefaCAV_init ''A'' 2 0 False 1 None,
                           TarefaCAV_init ''B'' 1 5 False 1 None])) [0, 1]"

text \<open>Non-preemptive priority: A (priority 1) and B (priority 5), both of duration 1,
  both arrived at 0.\<close>

definition cenario_NP :: estado where
  "cenario_NP =
     carregar (EscalonadorCAV_init
                 (memoria [TarefaCAV_init ''A'' 1 0 False 1 None,
                           TarefaCAV_init ''B'' 1 0 False 5 None])) [0, 1]"

text \<open>Round-Robin, quantum 2, with the single task A (duration 1, arrival 3).\<close>

definition cenario_espera :: estado where
  "cenario_espera =
     carregar (Escalonador_quantum_init
                 (memoria [TarefaCAV_init ''A'' 1 3 False 1 None]) 2) [0]"


text \<open>EDF, quantum 2: A without a deadline and B with deadline 5, both of duration 1 and
  arrived at 0.\<close>

definition cenario_EDF :: estado where
  "cenario_EDF =
     carregar (Escalonador_quantum_init
                 (memoria [TarefaCAV_init ''A'' 1 0 False 1 None,
                           TarefaCAV_init ''B'' 1 0 False 1 (Some 5)]) 2) [0, 1]"

text \<open>Adaptive quantum, base quantum 3: the single task A (duration 1, arrival 0) without
  a deadline.\<close>

definition cenario_UG :: estado where
  "cenario_UG =
     carregar (Escalonador_quantum_init
                 (memoria [TarefaCAV_init ''A'' 1 0 False 1 None]) 3) [0]"

text \<open>FIFO on A (duration 5, arrival 0) and B (duration 3, arrival 0).\<close>

definition cenario_FIFO :: estado where
  "cenario_FIFO =
     carregar (EscalonadorCAV_init
                 (memoria [TarefaCAV_init ''A'' 5 0 False 1 None,
                           TarefaCAV_init ''B'' 3 0 False 1 None])) [0, 1]"


text \<open>Round-Robin, quantum 2, on the single task X whose duration is the float
  \<^verbatim>\<open>1e17\<close> (arrival 0).\<close>

definition cenario_parado :: estado where
  "cenario_parado =
     carregar (Escalonador_quantum_init
                 (memoria [TarefaCAV_init ''X'' (10 ^ 17) 0 False 1 None]) 2) [0]"

section \<open>Invariants of the loops\<close>




text \<open>\<open>inv_parado\<close> holds at every iteration of the binary64 Round-Robin loop on the
  task X.\<close>

definition inv_parado :: "estado \<Rightarrow> bool" where
  "inv_parado s \<longleftrightarrow>
     fila s = [0] \<and> quantum s = 2 \<and> tempo_restante (mem s 0) = 10 ^ 17
     \<and> tempo_chegada (mem s 0) = 0 \<and> 0 \<le> tempo_atual s"

section \<open>Copies of a task list\<close>

text \<open>
  Two schedulers hold copies of one task list when a renaming \<open>\<pi>\<close> of references,
  injective on the first list, takes the first list to the second, corresponding
  references hold equal task records, and the scheduler fields agree:
  \<open>copia \<pi> s s'\<close>. \<open>corresponde\<close> adds that the queues correspond too, and
  \<open>corresponde_SJF\<close> that the task bound to \<^verbatim>\<open>tarefa\<close> does. \<open>mesmos_resultados\<close>
  compares what a run leaves on corresponding tasks: finish time and burst list, and the
  accumulated overhead. \<open>cenario_RR_copia\<close> is the Round-Robin scenario built again at
  the references 5 and 6.
\<close>

definition copia :: "(ref \<Rightarrow> ref) \<Rightarrow> estado \<Rightarrow> estado \<Rightarrow> bool" where
  "copia \<pi> s s' \<longleftrightarrow>
     inj_on \<pi> (set (tarefas s))
     \<and> tarefas s' = map \<pi> (tarefas s)
     \<and> (\<forall>a \<in> set (tarefas s). mem s' (\<pi> a) = mem s a)
     \<and> sobrecarga_total s' = sobrecarga_total s \<and> tempo_atual s' = tempo_atual s
     \<and> quantum s' = quantum s \<and> quantum_atual s' = quantum_atual s"

definition corresponde :: "(ref \<Rightarrow> ref) \<Rightarrow> estado \<Rightarrow> estado \<Rightarrow> bool" where
  "corresponde \<pi> s s' \<longleftrightarrow>
     copia \<pi> s s' \<and> set (fila s) \<subseteq> set (tarefas s) \<and> fila s' = map \<pi> (fila s)"

definition corresponde_SJF :: "(ref \<Rightarrow> ref) \<Rightarrow> estado \<Rightarrow> estado \<Rightarrow> bool" where
  "corresponde_SJF \<pi> s s' \<longleftrightarrow>
     corresponde \<pi> s s'
     \<and> (case tarefa s of
           None \<Rightarrow> tarefa s' = None
         | Some a \<Rightarrow> a \<in> set (tarefas s) \<and> tarefa s' = Some (\<pi> a))"

definition mesmos_resultados :: "(ref \<Rightarrow> ref) \<Rightarrow> ref list \<Rightarrow> estado \<Rightarrow> estado \<Rightarrow> bool" where
  "mesmos_resultados \<pi> as r r' \<longleftrightarrow>
     (\<forall>a \<in> set as.
         tempo_final (mem r' (\<pi> a)) = tempo_final (mem r a)
         \<and> tempos_execucao (mem r' (\<pi> a)) = tempos_execucao (mem r a))
     \<and> sobrecarga_total r' = sobrecarga_total r"

definition cenario_RR_copia :: estado where
  "cenario_RR_copia =
     carregar (Escalonador_quantum_init
                 (\<lambda>a. memoria [TarefaCAV_init ''A'' 5 0 False 1 None,
                                TarefaCAV_init ''B'' 3 0 False 1 None] (a - 5)) 2) [5, 6]"


section \<open>Rules for the loop\<close>

lemma laco_iterar:
  assumes "laco p s = Some res"
  shows "\<exists>n. iterar p n s = res \<and> (case res of Inr r \<Rightarrow> fila r = [] | Inl e \<Rightarrow> True)"
proof (rule laco.raw_induct[where P = "\<lambda>p s res. \<exists>n. iterar p n s = res
          \<and> (case res of Inr r \<Rightarrow> fila r = [] | Inl e \<Rightarrow> True)", OF _ assms])
  fix laco' q s res
  assume IH: "\<And>q s res. laco' q s = Some res \<Longrightarrow> \<exists>n. iterar q n s = res
          \<and> (case res of Inr r \<Rightarrow> fila r = [] | Inl e \<Rightarrow> True)"
    and body: "(if fila s = [] then Some (Inr s)
         else case q s of Inl e \<Rightarrow> Some (Inl e) | Inr s' \<Rightarrow> laco' q s') = Some res"
  show "\<exists>n. iterar q n s = res \<and> (case res of Inr r \<Rightarrow> fila r = [] | Inl e \<Rightarrow> True)"
  proof (cases "fila s = []")
    case True
    with body have "iterar q 0 s = res \<and> (case res of Inr r \<Rightarrow> fila r = [] | Inl e \<Rightarrow> True)"
      by auto
    then show ?thesis ..
  next
    case False
    show ?thesis
    proof (cases "q s")
      case (Inl e)
      with False body have "res = Inl e" by simp
      with False Inl have "iterar q (Suc 0) s = res
          \<and> (case res of Inr r \<Rightarrow> fila r = [] | Inl e \<Rightarrow> True)" by simp
      then show ?thesis ..
    next
      case (Inr s')
      with False body have "laco' q s' = Some res" by simp
      from IH[OF this] obtain n where "iterar q n s' = res"
        "case res of Inr r \<Rightarrow> fila r = [] | Inl e \<Rightarrow> True" by blast
      with False Inr have "iterar q (Suc n) s = res
          \<and> (case res of Inr r \<Rightarrow> fila r = [] | Inl e \<Rightarrow> True)" by simp
      then show ?thesis ..
    qed
  qed
qed

lemma iterar_inv:
  assumes step: "\<And>s s'. I s \<Longrightarrow> fila s \<noteq> [] \<Longrightarrow> p s = Inr s' \<Longrightarrow> I s'"
  shows "iterar p n s = Inr r \<Longrightarrow> I s \<Longrightarrow> I r"
proof (induction n arbitrary: s)
  case 0
  then show ?case by simp
next
  case (Suc n)
  show ?case
  proof (cases "fila s = []")
    case True
    with Suc.prems show ?thesis by simp
  next
    case False
    with Suc.prems(1) obtain s' where s': "p s = Inr s'" "iterar p n s' = Inr r"
      by (auto split: sum.splits)
    from step[OF Suc.prems(2) False s'(1)] have "I s'" .
    from Suc.IH[OF s'(2) this] show ?thesis .
  qed
qed

lemma laco_inv:
  assumes "laco p s = Some (Inr r)" and "I s"
    and step: "\<And>s s'. I s \<Longrightarrow> fila s \<noteq> [] \<Longrightarrow> p s = Inr s' \<Longrightarrow> I s'"
  shows "I r \<and> fila r = []"
proof -
  from laco_iterar[OF assms(1)] obtain n where n: "iterar p n s = Inr r" "fila r = []"
    by auto
  from iterar_inv[of I p n s r, OF step n(1) assms(2)] n(2) show ?thesis by simp
qed

lemma mem_preparar [simp]: "mem (preparar s) = mem s"
  by (simp add: preparar_def ordenar_tarefas_def Let_def)

lemma mem_relogio_inicial [simp]: "mem (relogio_inicial s) = mem s"
  by (simp add: relogio_inicial_def)

lemma escalonar_com_iterar:
  assumes "escalonar_com p s = Some (Inr r)"
  shows "\<exists>n. iterar p n (relogio_inicial (preparar s)) = Inr r \<or> r = preparar s"
proof (cases "length (tarefas (preparar s)) > 0")
  case True
  with assms have "laco p (relogio_inicial (preparar s)) = Some (Inr r)"
    by (simp add: escalonar_com_def Let_def)
  from laco_iterar[OF this] show ?thesis by auto
next
  case False
  with assms show ?thesis by (simp add: escalonar_com_def Let_def)
qed

lemma retorna: "(case x of Some (Inr r) \<Rightarrow> True | _ \<Rightarrow> False) \<Longrightarrow> \<exists>r. x = Some (Inr r)"
  by (auto split: option.splits sum.splits)

section \<open>The step of the quantum-based loop\<close>

lemma set_reinserir [simp]: "set (reinserir m t a xs) = insert a (set xs)"
  by (induction xs) auto

lemma mset_reinserir [simp]: "mset (reinserir m t a xs) = add_mset a (mset xs)"
  by (induction xs) auto

lemma set_chegaram: "set (tarefas_que_chegaram s) \<subseteq> set (fila s)"
  by (auto simp: tarefas_que_chegaram_def)

lemma last_sort_mem: "xs \<noteq> [] \<Longrightarrow> last (sort_key f xs) \<in> set xs"
  by (metis last_in_set set_empty set_sort)

lemma hd_sort_mem: "xs \<noteq> [] \<Longrightarrow> hd (sort_key f xs) \<in> set xs"
  by (metis hd_in_set set_empty set_sort)

lemma find_mem: "find P xs = Some x \<Longrightarrow> x \<in> set xs"
  by (induction xs) (auto split: if_splits)

lemma selecionar_FV_mem: "xs \<noteq> [] \<Longrightarrow> selecionar_FV c s xs \<in> set xs"
proof -
  assume ne: "xs \<noteq> []"
  let ?o = "sort_key (\<lambda>a. tempo_restante (mem s a)) xs"
  from ne have "hd ?o \<in> set xs" by (rule hd_sort_mem)
  moreover have "t \<in> set xs" if "find P ?o = Some t" for P t
    using find_mem[OF that] by simp
  ultimately show ?thesis
    by (auto simp: selecionar_FV_def Let_def split: option.splits)
qed

lemma selecionar_mem:
  assumes "selecionar c s xs = Inr a" and "xs \<noteq> []"
  shows "a \<in> set xs"
proof (cases c)
  case EDF
  with assms show ?thesis
    by (auto simp: ordenar_por_deadline_def hd_sort_mem split: if_splits sum.splits)
qed (use assms in \<open>auto simp: last_sort_mem selecionar_FV_mem\<close>)

lemma conceder_quantum:
  "conceder c s t = Inr (qa, te, u) \<Longrightarrow>
     (te = min (tempo_restante t) (quantum s) \<and> qa = quantum_atual s \<and> \<not> u)
     \<or> (te = min (tempo_restante t) (quantum_atual s + 1) \<and> qa = quantum_atual s + 1 \<and> u
         \<and> (\<exists>um. c = UG um))"
  by (auto simp: conceder_def split: classe.splits sum.splits if_splits)

lemma executar_burst_simps [simp]:
  "tempo_restante (executar_burst t i te) = tempo_restante t - te"
  "tempo_chegada (executar_burst t i te) = tempo_chegada t"
  "duracao (executar_burst t i te) = duracao t"
  "prioridade (executar_burst t i te) = prioridade t"
  "deadline (executar_burst t i te) = deadline t"
  "tempo_final (executar_burst t i te) = tempo_final t"
  "tempos_execucao (executar_burst t i te) = tempos_execucao t @ [(i, i + te)]"
  "tempo_final_execucao_atual (executar_burst t i te) = Some (i + te)"
  by (simp_all add: executar_burst_def Let_def)

text \<open>The four ways an iteration of the quantum-based loop can go.\<close>

lemma passo_cases [consumes 1, case_names idle skip requeue finish]:
  assumes "passo c s = Inr s'"
  obtains
    (idle) "tarefas_que_chegaram s = []"
      "s' = s\<lparr>tempo_atual := of_int \<lceil>tempo_atual s + 1\<rceil>\<rparr>"
  | (skip) a where "tarefas_que_chegaram s \<noteq> []"
      "selecionar c s (tarefas_que_chegaram s) = Inr a"
      "tempo_restante (mem s a) \<le> 0"
      "s' = s\<lparr>tarefa := Some a, fila := remove1 a (fila s)\<rparr>"
  | (requeue) a qa te u where "tarefas_que_chegaram s \<noteq> []"
      "selecionar c s (tarefas_que_chegaram s) = Inr a"
      "0 < tempo_restante (mem s a)"
      "conceder c s (mem s a) = Inr (qa, te, u)"
      "0 < tempo_restante (mem s a) - te"
      "s' = s\<lparr> tarefa := Some a,
               mem := (mem s)(a := executar_burst (mem s a) (max (tempo_atual s) (tempo_chegada (mem s a))) te),
               quantum_atual := qa,
               sobrecarga_total := sobrecarga_total s + 3 / 10,
               tempo_atual := max (tempo_atual s) (tempo_chegada (mem s a)) + te + 3 / 10,
               fila := reinserir
                        ((mem s)(a := executar_burst (mem s a) (max (tempo_atual s) (tempo_chegada (mem s a))) te))
                        (max (tempo_atual s) (tempo_chegada (mem s a)) + te + 3 / 10) a
                        (remove1 a (fila s)) \<rparr>"
  | (finish) a qa te u where "tarefas_que_chegaram s \<noteq> []"
      "selecionar c s (tarefas_que_chegaram s) = Inr a"
      "0 < tempo_restante (mem s a)"
      "conceder c s (mem s a) = Inr (qa, te, u)"
      "tempo_restante (mem s a) - te \<le> 0"
      "s' = s\<lparr> tarefa := Some a,
               mem := (mem s)(a := (executar_burst (mem s a) (max (tempo_atual s) (tempo_chegada (mem s a))) te)
                                   \<lparr>tempo_final := Some (max (tempo_atual s) (tempo_chegada (mem s a)) + te)\<rparr>),
               quantum_atual := (if u then quantum s else qa),
               tempo_atual := max (tempo_atual s) (tempo_chegada (mem s a)) + te,
               fila := remove1 a (fila s),
               finais := finais s @ [(a, tempo_restante (mem s a) - te)] \<rparr>"
proof (cases "tarefas_que_chegaram s = []")
  case True
  with assms have "s' = s\<lparr>tempo_atual := of_int \<lceil>tempo_atual s + 1\<rceil>\<rparr>"
    by (simp add: passo_def Let_def)
  with True show ?thesis by (rule idle)
next
  case ne: False
  with assms obtain a where sel: "selecionar c s (tarefas_que_chegaram s) = Inr a"
    by (auto simp: passo_def Let_def split: sum.splits)
  let ?s1 = "s\<lparr>tarefa := Some a, fila := remove1 a (fila s)\<rparr>"
  show ?thesis
  proof (cases "0 < tempo_restante (mem s a)")
    case False
    with assms ne sel have "s' = ?s1" by (simp add: passo_def Let_def)
    with ne sel False show ?thesis by (intro skip[of a]) auto
  next
    case pos: True
    with assms ne sel have d: "despachar c ?s1 a = Inr s'" by (simp add: passo_def Let_def)
    have cs: "conceder c ?s1 t = conceder c s t" for t
      by (cases c) (simp_all add: conceder_def split: sum.splits)
    from d obtain qa te u where con: "conceder c s (mem s a) = Inr (qa, te, u)"
      by (auto simp: despachar_def Let_def cs split: sum.splits)
    show ?thesis
    proof (cases "0 < tempo_restante (mem s a) - te")
      case True
      with d con have "s' = s\<lparr> tarefa := Some a,
               mem := (mem s)(a := executar_burst (mem s a) (max (tempo_atual s) (tempo_chegada (mem s a))) te),
               quantum_atual := qa,
               sobrecarga_total := sobrecarga_total s + 3 / 10,
               tempo_atual := max (tempo_atual s) (tempo_chegada (mem s a)) + te + 3 / 10,
               fila := reinserir
                        ((mem s)(a := executar_burst (mem s a) (max (tempo_atual s) (tempo_chegada (mem s a))) te))
                        (max (tempo_atual s) (tempo_chegada (mem s a)) + te + 3 / 10) a
                        (remove1 a (fila s)) \<rparr>"
        by (simp add: despachar_def Let_def cs atualizar_def registrar_sobrecarga_def)
      with ne sel pos con True show ?thesis by (rule requeue)
    next
      case False
      with d con have "s' = s\<lparr> tarefa := Some a,
               mem := (mem s)(a := (executar_burst (mem s a) (max (tempo_atual s) (tempo_chegada (mem s a))) te)
                                   \<lparr>tempo_final := Some (max (tempo_atual s) (tempo_chegada (mem s a)) + te)\<rparr>),
               quantum_atual := (if u then quantum s else qa),
               tempo_atual := max (tempo_atual s) (tempo_chegada (mem s a)) + te,
               fila := remove1 a (fila s),
               finais := finais s @ [(a, tempo_restante (mem s a) - te)] \<rparr>"
        by (cases u) (auto simp: despachar_def Let_def cs atualizar_def registrar_sobrecarga_def)
      moreover from False have "tempo_restante (mem s a) - te \<le> 0" by simp
      ultimately show ?thesis using ne sel pos con by (intro finish[of a qa te u]) auto
    qed
  qed
qed

section \<open>The remaining time never becomes negative\<close>

lemma conceder_exec:
  "conceder c s t = Inr (qa, te, u) \<Longrightarrow> \<exists>q. te = min (tempo_restante t) q"
  by (auto simp: conceder_def split: classe.splits sum.splits if_splits)

lemma despachar_restante:
  assumes "despachar c s b = Inr s'" and "0 \<le> tempo_restante (mem s a)"
  shows "0 \<le> tempo_restante (mem s' a)"
proof -
  from assms(1) obtain qa te u where c: "conceder c s (mem s b) = Inr (qa, te, u)"
    by (auto simp: despachar_def Let_def split: sum.splits)
  from conceder_exec[OF c] obtain q where te: "te = min (tempo_restante (mem s b)) q" ..
  show ?thesis
    using assms c te
    by (auto simp: despachar_def executar_burst_def Let_def atualizar_def
        registrar_sobrecarga_def split: if_splits)
qed

lemma passo_restante:
  assumes "passo c s = Inr s'" and "0 \<le> tempo_restante (mem s a)"
  shows "0 \<le> tempo_restante (mem s' a)"
  using assms
  by (auto simp: passo_def Let_def split: if_splits sum.splits dest: despachar_restante)

lemma SJF_passo_restante:
  assumes "SJF_passo s = Inr s'" and "0 \<le> tempo_restante (mem s a)"
  shows "0 \<le> tempo_restante (mem s' a)"
  using assms
  by (auto simp: SJF_passo_def SJF_executar_def atualizar_def Let_def split: if_splits option.splits)

lemma PrioridadeNP_passo_restante:
  assumes "PrioridadeNP_passo s = Inr s'" and "0 \<le> tempo_restante (mem s a)"
  shows "0 \<le> tempo_restante (mem s' a)"
  using assms
  by (auto simp: PrioridadeNP_passo_def atualizar_def Let_def split: if_splits)

lemma FIFO_corpo_restante: "tempo_restante (mem (FIFO_corpo s b) a) = tempo_restante (mem s a)"
  by (simp add: FIFO_corpo_def atualizar_def Let_def)

lemma foldl_FIFO_restante: "tempo_restante (mem (foldl FIFO_corpo s bs) a) = tempo_restante (mem s a)"
  by (induction bs arbitrary: s) (simp_all add: FIFO_corpo_restante)

lemma FIFO_restante: "tempo_restante (mem (EscalonadorFIFO_escalonar s) a) = tempo_restante (mem s a)"
  by (simp add: EscalonadorFIFO_escalonar_def Let_def foldl_FIFO_restante relogio_inicial_def ordenar_tarefas_def)

lemma executar_restante:
  "0 \<le> tempo_restante t \<Longrightarrow> 0 \<le> tempo_restante (fst (executar t q))"
  by (simp add: executar_def Let_def)

text \<open>
  C10. For every task with a non-negative remaining time (as \<^verbatim>\<open>TarefaCAV.__init__\<close>
  leaves it when the duration is non-negative), the remaining time stays non-negative:
  after \<^verbatim>\<open>TarefaCAV.executar\<close> with any quantum, after any number of iterations of the
  loop of every scheduler, and in the state every \<^verbatim>\<open>escalonar\<close> returns. A dispatch
  subtracts \<open>min tempo_restante q\<close> from a positive \<open>tempo_restante\<close>; the schedulers
  that run a task to completion never write the field. The quantum is not restricted, so
  the statement covers every positive quantum.
\<close>

theorem tempo_restante_never_negative:
  assumes "0 \<le> tempo_restante (mem s a)"
  shows "0 \<le> tempo_restante (fst (executar (mem s a) q))
    \<and> (\<forall>c n r. iterar (passo c) n (relogio_inicial (preparar s)) = Inr r
          \<longrightarrow> 0 \<le> tempo_restante (mem r a))
    \<and> (\<forall>c r. escalonar c s = Some (Inr r) \<longrightarrow> 0 \<le> tempo_restante (mem r a))
    \<and> (\<forall>n r. iterar SJF_passo n (relogio_inicial (preparar (s\<lparr>tarefa := None\<rparr>))) = Inr r
          \<longrightarrow> 0 \<le> tempo_restante (mem r a))
    \<and> (\<forall>r. EscalonadorSJF_escalonar s = Some (Inr r) \<longrightarrow> 0 \<le> tempo_restante (mem r a))
    \<and> (\<forall>n r. iterar PrioridadeNP_passo n (relogio_inicial (preparar s)) = Inr r
          \<longrightarrow> 0 \<le> tempo_restante (mem r a))
    \<and> (\<forall>r. EscalonadorPrioridadeNP_escalonar s = Some (Inr r) \<longrightarrow> 0 \<le> tempo_restante (mem r a))
    \<and> (\<forall>bs. 0 \<le> tempo_restante (mem (foldl FIFO_corpo (relogio_inicial (ordenar_tarefas s)) bs) a))
    \<and> 0 \<le> tempo_restante (mem (EscalonadorFIFO_escalonar s) a)"
proof -
  let ?P = "\<lambda>s. 0 \<le> tempo_restante (mem s a)"
  have q: "?P r" if "iterar (passo c) n s0 = Inr r" "?P s0" for c n r s0
    using iterar_inv[of ?P "passo c" n s0 r] that passo_restante by blast
  have j: "?P r" if "iterar SJF_passo n s0 = Inr r" "?P s0" for n r s0
    using iterar_inv[of ?P SJF_passo n s0 r] that SJF_passo_restante by blast
  have p: "?P r" if "iterar PrioridadeNP_passo n s0 = Inr r" "?P s0" for n r s0
    using iterar_inv[of ?P PrioridadeNP_passo n s0 r] that PrioridadeNP_passo_restante by blast
  have e: "?P r" if "escalonar_com f s0 = Some (Inr r)" "?P s0"
    and "\<And>n r. iterar f n (relogio_inicial (preparar s0)) = Inr r \<Longrightarrow> ?P r" for f r s0
    using escalonar_com_iterar[OF that(1)] that(2,3) by auto
  have 1: "0 \<le> tempo_restante (fst (executar (mem s a) q))"
    using assms by (rule executar_restante)
  have 2: "\<forall>c n r. iterar (passo c) n (relogio_inicial (preparar s)) = Inr r \<longrightarrow> ?P r"
    using q assms by simp
  have 3: "\<forall>c r. escalonar c s = Some (Inr r) \<longrightarrow> ?P r"
    unfolding escalonar_def using e[OF _ assms] 2 by blast
  have 4: "\<forall>n r. iterar SJF_passo n (relogio_inicial (preparar (s\<lparr>tarefa := None\<rparr>))) = Inr r \<longrightarrow> ?P r"
    using j assms by simp
  have 5: "\<forall>r. EscalonadorSJF_escalonar s = Some (Inr r) \<longrightarrow> ?P r"
    unfolding EscalonadorSJF_escalonar_def using e[of SJF_passo "s\<lparr>tarefa := None\<rparr>"] 4 assms by simp
  have 6: "\<forall>n r. iterar PrioridadeNP_passo n (relogio_inicial (preparar s)) = Inr r \<longrightarrow> ?P r"
    using p assms by simp
  have 7: "\<forall>r. EscalonadorPrioridadeNP_escalonar s = Some (Inr r) \<longrightarrow> ?P r"
    unfolding EscalonadorPrioridadeNP_escalonar_def using e[OF _ assms] 6 by blast
  have 8: "\<forall>bs. ?P (foldl FIFO_corpo (relogio_inicial (ordenar_tarefas s)) bs)"
    using assms by (simp add: foldl_FIFO_restante ordenar_tarefas_def)
  have 9: "?P (EscalonadorFIFO_escalonar s)"
    using assms by (simp add: FIFO_restante)
  from 1 2 3 4 5 6 7 8 9 show ?thesis by blast
qed

theorem tempo_restante_never_negative_witness:
  "0 \<le> tempo_restante (mem cenario_RR 0)
   \<and> 0 \<le> tempo_restante (fst (executar (mem cenario_RR 0) 2))
   \<and> (\<exists>r. escalonar RoundRobin cenario_RR = Some (Inr r) \<and> 0 \<le> tempo_restante (mem r 0))
   \<and> 0 \<le> tempo_restante (mem (EscalonadorFIFO_escalonar cenario_RR) 0)"
proof -
  have h: "0 \<le> tempo_restante (mem cenario_RR 0)" by code_simp
  have "case escalonar RoundRobin cenario_RR of Some (Inr r) \<Rightarrow> True | _ \<Rightarrow> False"
    by code_simp
  then obtain r where "escalonar RoundRobin cenario_RR = Some (Inr r)"
    using retorna by blast
  with tempo_restante_never_negative[OF h, of 2] h show ?thesis by blast
qed

section \<open>Missing deadlines\<close>

lemma conceder_erro:
  "conceder c s t = Inl e \<longleftrightarrow> e = TypeError \<and> (\<exists>u. c = UG u) \<and> deadline t = None"
  by (cases c) (auto simp: conceder_def urgencia_def split: option.splits sum.splits if_splits erro.splits)

lemma despachar_erro:
  "despachar c s a = Inl e \<longleftrightarrow> e = TypeError \<and> (\<exists>u. c = UG u) \<and> deadline (mem s a) = None"
proof -
  have "despachar c s a = Inl e \<longleftrightarrow> conceder c s (mem s a) = Inl e"
    by (auto simp: despachar_def Let_def split: sum.splits prod.splits if_splits)
  then show ?thesis by (simp add: conceder_erro)
qed

lemma selecionar_erro:
  "selecionar c s xs = Inl e \<longleftrightarrow>
     e = TypeError \<and> c = EDF \<and> 2 \<le> length xs \<and> list_ex (\<lambda>a. deadline (mem s a) = None) xs"
  by (cases c) (auto simp: ordenar_por_deadline_def split: sum.splits if_splits)

lemma passo_EDF_erro:
  "passo EDF s = Inl e \<longleftrightarrow>
     e = TypeError \<and> 2 \<le> length (tarefas_que_chegaram s)
     \<and> list_ex (\<lambda>a. deadline (mem s a) = None) (tarefas_que_chegaram s)"
proof (cases "selecionar EDF s (tarefas_que_chegaram s)")
  case (Inl e')
  with selecionar_erro[of EDF s "tarefas_que_chegaram s" e']
  have c: "e' = TypeError" "2 \<le> length (tarefas_que_chegaram s)"
    "list_ex (\<lambda>a. deadline (mem s a) = None) (tarefas_que_chegaram s)"
    by simp_all
  from c(2) have "tarefas_que_chegaram s \<noteq> []" by auto
  with Inl have "passo EDF s = Inl e'"
    by (simp add: passo_def Let_def del: selecionar.simps)
  with c show ?thesis by auto
next
  case (Inr a)
  then have "passo EDF s \<noteq> Inl e"
    by (auto simp: passo_def Let_def despachar_erro simp del: selecionar.simps)
  moreover from Inr have "\<not> (2 \<le> length (tarefas_que_chegaram s)
     \<and> list_ex (\<lambda>a. deadline (mem s a) = None) (tarefas_que_chegaram s))"
    using selecionar_erro[of EDF s "tarefas_que_chegaram s" TypeError] by auto
  ultimately show ?thesis by blast
qed

lemma passo_UG_erro:
  "passo (UG u) s = Inl e \<longleftrightarrow>
     e = TypeError \<and> tarefas_que_chegaram s \<noteq> []
     \<and> 0 < tempo_restante (mem s (last (sort_key (\<lambda>a. prioridade (mem s a)) (tarefas_que_chegaram s))))
     \<and> deadline (mem s (last (sort_key (\<lambda>a. prioridade (mem s a)) (tarefas_que_chegaram s)))) = None"
  by (auto simp: passo_def Let_def despachar_erro split: sum.splits if_splits)

lemma laco_erro: "fila s \<noteq> [] \<Longrightarrow> p s = Inl e \<Longrightarrow> laco p s = Some (Inl e)"
  by (subst laco.simps) simp

lemma chegaram_fila: "tarefas_que_chegaram s \<noteq> [] \<Longrightarrow> fila s \<noteq> []"
  by (auto simp: tarefas_que_chegaram_def)

text \<open>
  C6, amended. A missing deadline is not ranked as maximally urgent; it makes the
  comparison raise. An iteration of the EDF loop raises \<^verbatim>\<open>TypeError\<close> exactly when two
  or more queued tasks have arrived and one of them has no deadline (with a sole arrived
  task the sort compares nothing). An iteration of the adaptive-quantum loop raises
  \<^verbatim>\<open>TypeError\<close> exactly when the task it selects has remaining time and no deadline.
  The exception leaves \<^verbatim>\<open>escalonar\<close>: the loop entered in such a state ends with
  \<^verbatim>\<open>TypeError\<close>.
\<close>

theorem missing_deadline_raises:
  "(passo EDF s = Inl TypeError \<longleftrightarrow>
      2 \<le> length (tarefas_que_chegaram s)
      \<and> list_ex (\<lambda>a. deadline (mem s a) = None) (tarefas_que_chegaram s))
   \<and> (passo (UG u) s = Inl TypeError \<longleftrightarrow>
      tarefas_que_chegaram s \<noteq> []
      \<and> 0 < tempo_restante (mem s (last (sort_key (\<lambda>a. prioridade (mem s a)) (tarefas_que_chegaram s))))
      \<and> deadline (mem s (last (sort_key (\<lambda>a. prioridade (mem s a)) (tarefas_que_chegaram s)))) = None)
   \<and> (passo EDF s = Inl TypeError \<longrightarrow> laco (passo EDF) s = Some (Inl TypeError))
   \<and> (passo (UG u) s = Inl TypeError \<longrightarrow> laco (passo (UG u)) s = Some (Inl TypeError))"
proof -
  have "laco (passo c) s = Some (Inl TypeError)" if "passo c s = Inl TypeError" for c
  proof -
    from that have "tarefas_que_chegaram s \<noteq> []"
      by (auto simp: passo_def Let_def split: if_splits)
    then have "fila s \<noteq> []" by (rule chegaram_fila)
    from laco_erro[of s "passo c" TypeError, OF this that] show ?thesis .
  qed
  then show ?thesis
    using passo_EDF_erro[of s TypeError] passo_UG_erro[of u s TypeError]
    by blast
qed

text \<open>
  C6. Claim: with a task whose deadline is \<^verbatim>\<open>None\<close> the EDF and adaptive-quantum
  schedulers do not raise, and the run completes. Both runs end with \<^verbatim>\<open>TypeError\<close>:
  EDF on A (no deadline) and B (deadline 5), the adaptive-quantum scheduler on the single
  task A (no deadline).
\<close>

theorem missing_deadline_counterexample:
  "deadline (mem cenario_EDF 0) = None
   \<and> escalonar EDF cenario_EDF = Some (Inl TypeError)
   \<and> deadline (mem cenario_UG 0) = None
   \<and> escalonar (UG (1 / 2)) cenario_UG = Some (Inl TypeError)"
proof -
  have "deadline (mem cenario_EDF 0) = None" and "deadline (mem cenario_UG 0) = None"
    by code_simp+
  moreover have "case escalonar EDF cenario_EDF of Some (Inl TypeError) \<Rightarrow> True | _ \<Rightarrow> False"
    by code_simp
  then have "escalonar EDF cenario_EDF = Some (Inl TypeError)"
    by (simp split: option.splits sum.splits erro.splits)
  moreover have "case escalonar (UG (1 / 2)) cenario_UG of Some (Inl TypeError) \<Rightarrow> True | _ \<Rightarrow> False"
    by code_simp
  then have "escalonar (UG (1 / 2)) cenario_UG = Some (Inl TypeError)"
    by (simp split: option.splits sum.splits erro.splits)
  ultimately show ?thesis by simp
qed

theorem missing_deadline_raises_witness:
  "2 \<le> length (tarefas_que_chegaram (relogio_inicial (preparar cenario_EDF)))
   \<and> list_ex (\<lambda>a. deadline (mem (relogio_inicial (preparar cenario_EDF)) a) = None)
        (tarefas_que_chegaram (relogio_inicial (preparar cenario_EDF)))
   \<and> passo EDF (relogio_inicial (preparar cenario_EDF)) = Inl TypeError
   \<and> laco (passo EDF) (relogio_inicial (preparar cenario_EDF)) = Some (Inl TypeError)"
proof -
  have h: "2 \<le> length (tarefas_que_chegaram (relogio_inicial (preparar cenario_EDF)))
   \<and> list_ex (\<lambda>a. deadline (mem (relogio_inicial (preparar cenario_EDF)) a) = None)
        (tarefas_que_chegaram (relogio_inicial (preparar cenario_EDF)))"
    by code_simp
  with missing_deadline_raises[of "relogio_inicial (preparar cenario_EDF)" "1 / 2"]
  show ?thesis by blast
qed

section \<open>The prologue and the run-to-completion steps\<close>

lemma preparar_simps [simp]:
  "tarefas (preparar s) = sort_key (\<lambda>a. tempo_chegada (mem s a)) (tarefas s)"
  "fila (preparar s) = sort_key (\<lambda>a. tempo_chegada (mem s a)) (tarefas s)"
  "finais (preparar s) = finais s"
  "quantum (preparar s) = quantum s"
  "quantum_atual (preparar s) = quantum_atual s"
  "tarefa (preparar s) = tarefa s"
  "sobrecarga_total (preparar s) = sobrecarga_total s"
  by (simp_all add: preparar_def ordenar_tarefas_def Let_def)

lemma relogio_inicial_simps [simp]:
  "tarefas (relogio_inicial s) = tarefas s"
  "fila (relogio_inicial s) = fila s"
  "finais (relogio_inicial s) = finais s"
  "quantum (relogio_inicial s) = quantum s"
  "quantum_atual (relogio_inicial s) = quantum_atual s"
  "tarefa (relogio_inicial s) = tarefa s"
  "sobrecarga_total (relogio_inicial s) = sobrecarga_total s"
  "tempo_atual (relogio_inicial s) = tempo_chegada (mem s (hd (tarefas s)))"
  by (simp_all add: relogio_inicial_def)

lemma sort_key_Nil_iff [simp]: "sort_key f xs = [] \<longleftrightarrow> xs = []"
  by (metis length_0_conv length_sort)

lemma escalonar_com_cases:
  assumes "escalonar_com p s = Some (Inr r)"
  obtains (vazio) "tarefas s = []" "r = preparar s"
  | (laco) "tarefas s \<noteq> []" "laco p (relogio_inicial (preparar s)) = Some (Inr r)"
proof (cases "tarefas s = []")
  case True
  with assms have "r = preparar s" by (simp add: escalonar_com_def Let_def)
  with True show ?thesis by (rule vazio)
next
  case False
  with assms have "laco p (relogio_inicial (preparar s)) = Some (Inr r)"
    by (simp add: escalonar_com_def Let_def)
  with False show ?thesis by (rule laco)
qed

lemma SJF_executar_simps [simp]:
  "finais (SJF_executar s a) = finais s @ [(a, tempo_restante (mem s a))]"
  "tempo_restante (mem (SJF_executar s a) b) = tempo_restante (mem s b)"
  "fila (SJF_executar s a) = fila s"
  "tarefas (SJF_executar s a) = tarefas s"
  "tarefa (SJF_executar s a) = tarefa s"
  by (simp_all add: SJF_executar_def atualizar_def Let_def)

lemma SJF_passo_cases [consumes 1, case_names novo repetido]:
  assumes "SJF_passo s = Inr s'"
  obtains (novo) a where "tarefas_que_chegaram s \<noteq> []"
      "a = hd (sort_key (\<lambda>a. duracao (mem s a)) (tarefas_que_chegaram s))"
      "s' = SJF_executar (s\<lparr>tarefa := Some a, fila := remove1 a (fila s)\<rparr>) a"
  | (repetido) a where "tarefas_que_chegaram s = []" "tarefa s = Some a"
      "s' = SJF_executar s a"
proof (cases "tarefas_que_chegaram s = []")
  case True
  with assms obtain a where "tarefa s = Some a" "s' = SJF_executar s a"
    by (auto simp: SJF_passo_def Let_def split: option.splits)
  with True show ?thesis by (intro repetido[of a]) auto
next
  case False
  let ?a = "hd (sort_key (\<lambda>a. duracao (mem s a)) (tarefas_que_chegaram s))"
  from assms False
  have "s' = SJF_executar (s\<lparr>tarefa := Some ?a, fila := remove1 ?a (fila s)\<rparr>) ?a"
    by (simp add: SJF_passo_def Let_def)
  with False show ?thesis by (intro novo[of ?a]) auto
qed

section \<open>The finish times when a run returns\<close>





subsection \<open>FIFO\<close>




subsection \<open>Non-preemptive priority\<close>




subsection \<open>SJF\<close>

lemma SJF_executar_mais [simp]:
  "tempo_atual (SJF_executar s a) = max (tempo_atual s) (tempo_chegada (mem s a)) + duracao (mem s a)"
  "tempo_chegada (mem (SJF_executar s a) b) = tempo_chegada (mem s b)"
  "duracao (mem (SJF_executar s a) b) = duracao (mem s b)"
  "tempo_final (mem (SJF_executar s a) b) = None \<longleftrightarrow> b \<noteq> a \<and> tempo_final (mem s b) = None"
  by (simp_all add: SJF_executar_def atualizar_def Let_def)



subsection \<open>A run that does not return\<close>

text \<open>
  With binary64 arithmetic \<^verbatim>\<open>1e17 - 2\<close> is \<^verbatim>\<open>1e17\<close>: a burst of Round-Robin with quantum
  2 leaves the remaining time of X as it was, X is queued again, and the loop never
  ends.
\<close>

lemma dois_elevado_pos: "0 < dois_elevado e"
  by (simp add: dois_elevado_def)

lemma inteiro_mais_proximo_nonneg: "0 \<le> y \<Longrightarrow> 0 \<le> inteiro_mais_proximo y"
  by (auto simp: inteiro_mais_proximo_def Let_def)

lemma arredondar_nonneg: "0 \<le> x \<Longrightarrow> 0 \<le> arredondar x"
  using dois_elevado_pos[of "expoente x"] inteiro_mais_proximo_nonneg[of "x / dois_elevado (expoente x)"]
  by (simp add: arredondar_def Let_def)

lemma menos_absorvido: "menos 100000000000000000 2 = 100000000000000000"
  by code_simp

lemma passo_parado:
  assumes "inv_parado s"
  shows "\<exists>s'. RoundRobin_passo s = Inr s' \<and> inv_parado s'"
proof -
  from assms have c: "tarefas_que_chegaram s = [0]"
    by (simp add: inv_parado_def tarefas_que_chegaram_def)
  from assms have m: "max (tempo_atual s) (tempo_chegada (mem s 0)) = tempo_atual s"
    "min (tempo_restante (mem s 0)) (quantum s) = 2"
    by (simp_all add: inv_parado_def)
  from assms have "0 \<le> mais (mais (tempo_atual s) 2) (arredondar (3 / 10))"
    unfolding mais_def by (intro arredondar_nonneg add_nonneg_nonneg) (simp_all add: inv_parado_def)
  with assms c m show ?thesis
    by (simp add: RoundRobin_passo_def RoundRobin_despachar_def RoundRobin_burst_def Let_def
        atualizar_def inv_parado_def menos_absorvido)
qed

lemma iterar_parado:
  "inv_parado s \<Longrightarrow> \<exists>r. iterar RoundRobin_passo n s = Inr r \<and> inv_parado r"
proof (induction n arbitrary: s)
  case 0
  then show ?case by simp
next
  case (Suc n)
  from passo_parado[OF Suc.prems] obtain s' where s': "RoundRobin_passo s = Inr s'" "inv_parado s'"
    by blast
  from Suc.IH[OF s'(2)] obtain r where "iterar RoundRobin_passo n s' = Inr r" "inv_parado r"
    by blast
  with s'(1) Suc.prems show ?case by (simp add: inv_parado_def)
qed

lemma laco_parado:
  assumes "inv_parado s"
  shows "laco RoundRobin_passo s = None"
proof (cases "laco RoundRobin_passo s")
  case None
  then show ?thesis .
next
  case (Some res)
  from laco_iterar[OF Some] obtain n where n: "iterar RoundRobin_passo n s = res"
    "case res of Inr r \<Rightarrow> fila r = [] | Inl e \<Rightarrow> True" by blast
  from iterar_parado[OF assms, of n] n(1) obtain r where "res = Inr r" "inv_parado r" by auto
  with n(2) show ?thesis by (simp add: inv_parado_def)
qed

lemma RoundRobin_never_returns:
  "duracao (mem cenario_parado 0) = 10 ^ 17 \<and> quantum cenario_parado = 2
   \<and> tarefas cenario_parado = [0]
   \<and> EscalonadorRoundRobin_escalonar cenario_parado = None"
proof -
  have h: "duracao (mem cenario_parado 0) = 10 ^ 17" "quantum cenario_parado = 2"
    "tarefas cenario_parado = [0]"
    "inv_parado (relogio_inicial (preparar cenario_parado))"
    by code_simp+
  from h(3) have "EscalonadorRoundRobin_escalonar cenario_parado
      = laco RoundRobin_passo (relogio_inicial (preparar cenario_parado))"
    by (simp add: EscalonadorRoundRobin_escalonar_def escalonar_com_def Let_def preparar_def
        ordenar_tarefas_def)
  with laco_parado[OF h(4)] h(1-3) show ?thesis by simp
qed




section \<open>Two runs on copies of a task list\<close>

text \<open>Lists of references under a renaming \<open>\<pi>\<close> of references.\<close>

lemma filter_renomeia:
  assumes "\<And>a. a \<in> set xs \<Longrightarrow> P' (\<pi> a) = P a"
  shows "filter P' (map \<pi> xs) = map \<pi> (filter P xs)"
  using assms by (induction xs) auto

lemma insort_renomeia:
  assumes "\<And>a. a \<in> set (x # ys) \<Longrightarrow> f' (\<pi> a) = f a"
  shows "insort_key f' (\<pi> x) (map \<pi> ys) = map \<pi> (insort_key f x ys)"
  using assms by (induction ys) auto

lemma sort_renomeia:
  assumes "\<And>a. a \<in> set xs \<Longrightarrow> f' (\<pi> a) = f a"
  shows "sort_key f' (map \<pi> xs) = map \<pi> (sort_key f xs)"
  using assms
proof (induction xs)
  case Nil
  show ?case by simp
next
  case (Cons x xs)
  then have "sort_key f' (map \<pi> xs) = map \<pi> (sort_key f xs)" by simp
  moreover have "insort_key f' (\<pi> x) (map \<pi> (sort_key f xs))
      = map \<pi> (insort_key f x (sort_key f xs))"
    using Cons.prems by (intro insort_renomeia) auto
  ultimately show ?case by simp
qed

lemma remove1_renomeia:
  assumes "inj_on \<pi> D" and "a \<in> D" and "set xs \<subseteq> D"
  shows "remove1 (\<pi> a) (map \<pi> xs) = map \<pi> (remove1 a xs)"
  using assms(3)
proof (induction xs)
  case Nil
  show ?case by simp
next
  case (Cons x xs)
  with assms(1,2) have "\<pi> a = \<pi> x \<longleftrightarrow> a = x" by (auto dest: inj_onD)
  with Cons show ?case by auto
qed

lemma reinserir_renomeia:
  assumes "\<And>b. b \<in> set xs \<Longrightarrow> tempo_chegada (m' (\<pi> b)) = tempo_chegada (m b)"
  shows "reinserir m' t (\<pi> a) (map \<pi> xs) = map \<pi> (reinserir m t a xs)"
  using assms by (induction xs) auto

lemma find_renomeia:
  assumes "\<And>a. a \<in> set xs \<Longrightarrow> P' (\<pi> a) = P a"
  shows "find P' (map \<pi> xs) = map_option \<pi> (find P xs)"
  using assms by (induction xs) auto

lemma sum_list_renomeia:
  fixes f :: "ref \<Rightarrow> rat"
  assumes "\<And>a. a \<in> set xs \<Longrightarrow> f' (\<pi> a) = f a"
  shows "sum_list (map f' (map \<pi> xs)) = sum_list (map f xs)"
  using assms by (induction xs) auto

lemma foldl_renomeia:
  assumes "\<And>a v. a \<in> set xs \<Longrightarrow> g' v (\<pi> a) = g v a"
  shows "foldl g' v (map \<pi> xs) = foldl g v xs"
  using assms by (induction xs arbitrary: v) auto

lemma list_ex_renomeia:
  assumes "\<And>a. a \<in> set xs \<Longrightarrow> P' (\<pi> a) = P a"
  shows "list_ex P' (map \<pi> xs) = list_ex P xs"
  using assms by (induction xs) auto

lemma correspondeD:
  assumes "corresponde \<pi> s s'"
  shows "inj_on \<pi> (set (tarefas s))" "set (fila s) \<subseteq> set (tarefas s)"
    "tarefas s' = map \<pi> (tarefas s)" "fila s' = map \<pi> (fila s)"
    "\<And>a. a \<in> set (tarefas s) \<Longrightarrow> mem s' (\<pi> a) = mem s a"
    "sobrecarga_total s' = sobrecarga_total s" "tempo_atual s' = tempo_atual s"
    "quantum s' = quantum s" "quantum_atual s' = quantum_atual s"
  using assms by (simp_all add: corresponde_def copia_def)

lemma corresponde_fila:
  assumes "corresponde \<pi> s s'" and "a \<in> set (fila s)"
  shows "mem s' (\<pi> a) = mem s a"
  using correspondeD(2,5)[OF assms(1)] assms(2) by blast

lemma chegaram_renomeia:
  assumes "corresponde \<pi> s s'"
  shows "tarefas_que_chegaram s' = map \<pi> (tarefas_que_chegaram s)"
  unfolding tarefas_que_chegaram_def correspondeD(4)[OF assms]
  by (rule filter_renomeia) (simp add: corresponde_fila[OF assms] correspondeD(7)[OF assms])

text \<open>The thresholds of the FutureVision classes.\<close>

lemma duracao_media_renomeia:
  assumes "\<And>a. a \<in> set xs \<Longrightarrow> m' (\<pi> a) = m a"
  shows "duracao_media m' (map \<pi> xs) = duracao_media m xs"
proof -
  have "sum_list (map (\<lambda>a. tempo_restante (m' a)) (map \<pi> xs))
      = sum_list (map (\<lambda>a. tempo_restante (m a)) xs)"
    by (rule sum_list_renomeia) (simp add: assms)
  then show ?thesis unfolding duracao_media_def by (simp only: length_map)
qed

lemma chegada_media_renomeia:
  assumes "\<And>a. a \<in> set xs \<Longrightarrow> m' (\<pi> a) = m a"
  shows "chegada_media m' (map \<pi> xs) = chegada_media m xs"
proof -
  have "sum_list (map (\<lambda>a. tempo_chegada (m' a)) (map \<pi> xs))
      = sum_list (map (\<lambda>a. tempo_chegada (m a)) xs)"
    by (rule sum_list_renomeia) (simp add: assms)
  then show ?thesis unfolding chegada_media_def by (simp only: length_map)
qed

lemma mediana_chegada_renomeia:
  assumes "\<And>a. a \<in> set xs \<Longrightarrow> m' (\<pi> a) = m a" and "xs \<noteq> []"
  shows "mediana_chegada m' (map \<pi> xs) = mediana_chegada m xs"
proof -
  from assms(2) have 1: "length xs div 2 < length xs" and 2: "length xs div 2 - 1 < length xs"
    by (cases xs; simp)+
  from 1 2 assms(1) show ?thesis
    by (simp add: mediana_chegada_def)
qed

lemma chegada_media_intervalo_renomeia:
  assumes "\<And>a. a \<in> set xs \<Longrightarrow> m' (\<pi> a) = m a" and "xs \<noteq> []"
  shows "chegada_media_intervalo m' (map \<pi> xs) = chegada_media_intervalo m xs"
proof -
  have "foldl (\<lambda>v a. min v (tempo_chegada (m' a))) v (map \<pi> xs)
      = foldl (\<lambda>v a. min v (tempo_chegada (m a))) v xs" for v
    by (rule foldl_renomeia) (simp add: assms(1))
  moreover have "foldl (\<lambda>v a. max v (tempo_chegada (m' a))) v (map \<pi> xs)
      = foldl (\<lambda>v a. max v (tempo_chegada (m a))) v xs" for v
    by (rule foldl_renomeia) (simp add: assms(1))
  moreover from assms have "m' (hd (map \<pi> xs)) = m (hd xs)" by (simp add: hd_map)
  ultimately show ?thesis by (simp add: chegada_media_intervalo_def Let_def)
qed

lemma limite_renomeia:
  assumes "\<And>a. a \<in> set xs \<Longrightarrow> m' (\<pi> a) = m a"
  shows "limite c m' (map \<pi> xs) = limite c m xs"
proof (cases "xs = []")
  case True
  then show ?thesis by (cases c) simp_all
next
  case False
  note r = duracao_media_renomeia[of xs m' \<pi> m, OF assms]
    chegada_media_renomeia[of xs m' \<pi> m, OF assms]
    mediana_chegada_renomeia[of xs m' \<pi> m, OF assms False]
    chegada_media_intervalo_renomeia[of xs m' \<pi> m, OF assms False]
  show ?thesis by (cases c) (simp_all add: r)
qed

lemma tempo_aguardando_renomeia:
  assumes "corresponde \<pi> s s'" and "a \<in> set (fila s)"
  shows "tempo_aguardando s' (\<pi> a) = tempo_aguardando s a"
  by (simp add: tempo_aguardando_def corresponde_fila[OF assms] correspondeD(7)[OF assms(1)]
      split: option.splits)

lemma selecionar_FV_renomeia:
  assumes "corresponde \<pi> s s'" and "set xs \<subseteq> set (fila s)" and "xs \<noteq> []"
  shows "selecionar_FV c s' (map \<pi> xs) = \<pi> (selecionar_FV c s xs)"
proof -
  let ?o = "sort_key (\<lambda>a. tempo_restante (mem s a)) xs"
  have m: "mem s' (\<pi> a) = mem s a" if "a \<in> set xs" for a
    using that assms(2) corresponde_fila[OF assms(1)] by blast
  have o: "sort_key (\<lambda>a. tempo_restante (mem s' a)) (map \<pi> xs) = map \<pi> ?o"
    by (rule sort_renomeia) (simp add: m)
  have l: "limite c (mem s') (map \<pi> ?o) = limite c (mem s) ?o"
    by (rule limite_renomeia) (simp add: m)
  have f: "find (\<lambda>t. limite c (mem s) ?o < tempo_aguardando s' t) (map \<pi> ?o)
      = map_option \<pi> (find (\<lambda>t. limite c (mem s) ?o < tempo_aguardando s t) ?o)"
    using assms(2) by (intro find_renomeia) (auto simp: tempo_aguardando_renomeia[OF assms(1)])
  from assms(3) have "?o \<noteq> []" by simp
  then have "hd (map \<pi> ?o) = \<pi> (hd ?o)" by (rule hd_map)
  with o l f show ?thesis
    by (simp add: selecionar_FV_def Let_def split: option.splits)
qed

lemma selecionar_renomeia:
  assumes "corresponde \<pi> s s'" and "set xs \<subseteq> set (fila s)" and "xs \<noteq> []"
  shows "selecionar c s' (map \<pi> xs) = map_sum id \<pi> (selecionar c s xs)"
proof -
  have m: "mem s' (\<pi> a) = mem s a" if "a \<in> set xs" for a
    using that assms(2) corresponde_fila[OF assms(1)] by blast
  have p: "sort_key (\<lambda>a. prioridade (mem s' a)) (map \<pi> xs)
      = map \<pi> (sort_key (\<lambda>a. prioridade (mem s a)) xs)"
    by (rule sort_renomeia) (simp add: m)
  from assms(3) have pl: "last (map \<pi> (sort_key (\<lambda>a. prioridade (mem s a)) xs))
      = \<pi> (last (sort_key (\<lambda>a. prioridade (mem s a)) xs))"
    by (intro last_map) simp
  have d: "sort_key (\<lambda>a. case deadline (mem s' a) of Some d \<Rightarrow> d | None \<Rightarrow> 0) (map \<pi> xs)
      = map \<pi> (sort_key (\<lambda>a. case deadline (mem s a) of Some d \<Rightarrow> d | None \<Rightarrow> 0) xs)"
    by (rule sort_renomeia) (simp add: m)
  from assms(3) have dh: "hd (map \<pi> (sort_key (\<lambda>a. case deadline (mem s a) of Some d \<Rightarrow> d | None \<Rightarrow> 0) xs))
      = \<pi> (hd (sort_key (\<lambda>a. case deadline (mem s a) of Some d \<Rightarrow> d | None \<Rightarrow> 0) xs))"
    by (intro hd_map) simp
  have e: "list_ex (\<lambda>a. deadline (mem s' a) = None) (map \<pi> xs)
      = list_ex (\<lambda>a. deadline (mem s a) = None) xs"
    by (rule list_ex_renomeia) (simp add: m)
  note fv = selecionar_FV_renomeia[OF assms]
  show ?thesis
  proof (cases c)
    case RoundRobin
    with assms(3) show ?thesis by (simp add: hd_map)
  next
    case EDF
    with d dh e show ?thesis by (simp add: ordenar_por_deadline_def)
  next
    case PrioridadeP
    with p pl show ?thesis by simp
  next
    case (UG u)
    with p pl show ?thesis by simp
  qed (simp_all add: fv)
qed

lemma conceder_renomeia:
  assumes "corresponde \<pi> s s'"
  shows "conceder c s' t = conceder c s t"
  by (cases c) (simp_all add: conceder_def correspondeD(8,9)[OF assms] split: sum.splits)

lemma mem_upd_renomeia:
  assumes "inj_on \<pi> D" and "a \<in> D" and "b \<in> D" and "m' (\<pi> b) = m b"
  shows "(m'(\<pi> a := t)) (\<pi> b) = (m(a := t)) b"
  using assms by (auto dest: inj_onD)

lemma despachar_renomeia:
  assumes "corresponde \<pi> s s'" and "a \<in> set (tarefas s)"
  shows "rel_sum (=) (corresponde \<pi>) (despachar c s a) (despachar c s' (\<pi> a))"
proof -
  note d = correspondeD[OF assms(1)]
  have m: "mem s' (\<pi> a) = mem s a" using d(5)[OF assms(2)] .
  have u: "((mem s')(\<pi> a := t)) (\<pi> b) = ((mem s)(a := t)) b" if "b \<in> set (tarefas s)" for b t
    using d(1) assms(2) that d(5)[OF that] by (rule mem_upd_renomeia)
  have r: "reinserir ((mem s')(\<pi> a := t)) v (\<pi> a) (map \<pi> (fila s))
      = map \<pi> (reinserir ((mem s)(a := t)) v a (fila s))" for t v
  proof (rule reinserir_renomeia)
    fix b assume "b \<in> set (fila s)"
    with d(2) have "b \<in> set (tarefas s)" by blast
    from u[OF this] show "tempo_chegada (((mem s')(\<pi> a := t)) (\<pi> b))
        = tempo_chegada (((mem s)(a := t)) b)" by simp
  qed
  show ?thesis
  proof (cases "conceder c s (mem s a)")
    case (Inl e)
    then show ?thesis
      by (simp add: despachar_def Let_def m conceder_renomeia[OF assms(1)])
  next
    case (Inr x)
    obtain qa te u where x: "x = (qa, te, u)" by (cases x)
    let ?i = "max (tempo_atual s) (tempo_chegada (mem s a))"
    let ?t = "executar_burst (mem s a) ?i te"
    show ?thesis
    proof (cases "0 < tempo_restante ?t")
      case True
      with Inr x d assms(2) show ?thesis
        by (simp add: despachar_def Let_def m conceder_renomeia[OF assms(1)] atualizar_def
            registrar_sobrecarga_def corresponde_def copia_def u r del: fun_upd_apply)
    next
      case False
      with Inr x d assms(2) show ?thesis
        by (cases u)
           (simp_all add: despachar_def Let_def m conceder_renomeia[OF assms(1)] atualizar_def
            registrar_sobrecarga_def corresponde_def copia_def u del: fun_upd_apply)
    qed
  qed
qed

lemma passo_renomeia:
  assumes "corresponde \<pi> s s'"
  shows "rel_sum (=) (corresponde \<pi>) (passo c s) (passo c s')"
proof (cases "tarefas_que_chegaram s = []")
  case True
  with assms show ?thesis
    by (simp add: passo_def chegaram_renomeia[OF assms] corresponde_def copia_def)
next
  case False
  note d = correspondeD[OF assms]
  note ch = chegaram_renomeia[OF assms]
  from selecionar_renomeia[OF assms set_chegaram False]
  have sel: "selecionar c s' (tarefas_que_chegaram s') = map_sum id \<pi> (selecionar c s (tarefas_que_chegaram s))"
    by (simp add: ch)
  show ?thesis
  proof (cases "selecionar c s (tarefas_que_chegaram s)")
    case (Inl e)
    with False sel show ?thesis by (simp add: passo_def Let_def ch)
  next
    case (Inr a)
    from selecionar_mem[OF Inr False] set_chegaram[of s] have af: "a \<in> set (fila s)" by blast
    with d(2) have at: "a \<in> set (tarefas s)" by blast
    let ?s1 = "s\<lparr>tarefa := Some a, fila := remove1 a (fila s)\<rparr>"
    let ?s1' = "s'\<lparr>tarefa := Some (\<pi> a), fila := remove1 (\<pi> a) (fila s')\<rparr>"
    from remove1_renomeia[OF d(1) at d(2)] d(4)
    have "remove1 (\<pi> a) (fila s') = map \<pi> (remove1 a (fila s))" by simp
    moreover from d(2) have "set (remove1 a (fila s)) \<subseteq> set (tarefas s)"
      by (auto dest: notin_set_remove1)
    ultimately have c1: "corresponde \<pi> ?s1 ?s1'" using d by (simp add: corresponde_def copia_def)
    from at have "a \<in> set (tarefas ?s1)" by simp
    from despachar_renomeia[OF c1 this]
    have "rel_sum (=) (corresponde \<pi>) (despachar c ?s1 a) (despachar c ?s1' (\<pi> a))" .
    with False sel Inr c1 d(5)[OF at] show ?thesis
      by (simp add: passo_def Let_def ch)
  qed
qed

subsection \<open>The loop under a renaming\<close>

lemma iterar_laco:
  assumes "iterar p n s = res" and "case res of Inr r \<Rightarrow> fila r = [] | Inl e \<Rightarrow> True"
  shows "laco p s = Some res"
  using assms
proof (induction n arbitrary: s)
  case 0
  then show ?case by (subst laco.simps) auto
next
  case (Suc n)
  show ?case
  proof (cases "fila s = []")
    case True
    with Suc.prems show ?thesis by (subst laco.simps) auto
  next
    case False
    show ?thesis
    proof (cases "p s")
      case (Inl e)
      with False Suc.prems show ?thesis by (subst laco.simps) auto
    next
      case (Inr s1)
      with False Suc.prems have "iterar p n s1 = res" by simp
      from Suc.IH[OF this Suc.prems(2)] have "laco p s1 = Some res" .
      with False Inr show ?thesis by (subst laco.simps) simp
    qed
  qed
qed

lemma iterar_rel:
  assumes step: "\<And>s s'. R s s' \<Longrightarrow> rel_sum (=) R (p s) (p s')"
    and vazio: "\<And>s s'. R s s' \<Longrightarrow> fila s = [] \<longleftrightarrow> fila s' = []"
  shows "R s s' \<Longrightarrow> rel_sum (=) R (iterar p n s) (iterar p n s')"
proof (induction n arbitrary: s s')
  case 0
  then show ?case by simp
next
  case (Suc n)
  show ?case
  proof (cases "fila s = []")
    case True
    with vazio[OF Suc.prems] Suc.prems show ?thesis by simp
  next
    case False
    with vazio[OF Suc.prems] have f': "fila s' \<noteq> []" by simp
    note r = step[OF Suc.prems]
    show ?thesis
    proof (cases "p s")
      case (Inl e)
      with r have "p s' = Inl e" by (cases "p s'") simp_all
      with Inl False f' show ?thesis by simp
    next
      case (Inr s1)
      with r obtain s1' where s1': "p s' = Inr s1'" "R s1 s1'" by (cases "p s'") simp_all
      from Suc.IH[OF s1'(2)] Inr s1'(1) False f' show ?thesis by simp
    qed
  qed
qed

lemma parado_rel:
  assumes vazio: "\<And>s s'. R s s' \<Longrightarrow> fila s = [] \<longleftrightarrow> fila s' = []"
    and "rel_sum (=) R res res'"
  shows "(case res of Inr r \<Rightarrow> fila r = [] | Inl e \<Rightarrow> True)
     \<longleftrightarrow> (case res' of Inr r \<Rightarrow> fila r = [] | Inl e \<Rightarrow> True)"
  using assms(2) by (cases res; cases res') (auto dest: vazio)

lemma laco_rel:
  assumes step: "\<And>s s'. R s s' \<Longrightarrow> rel_sum (=) R (p s) (p s')"
    and vazio: "\<And>s s'. R s s' \<Longrightarrow> fila s = [] \<longleftrightarrow> fila s' = []"
    and "R s s'"
  shows "rel_option (rel_sum (=) R) (laco p s) (laco p s')"
proof -
  note ir = iterar_rel[of R p, OF step vazio assms(3)]
  have 1: "\<exists>res'. laco p s' = Some res' \<and> rel_sum (=) R res res'" if "laco p s = Some res" for res
  proof -
    from laco_iterar[OF that] obtain n where n: "iterar p n s = res"
      "case res of Inr r \<Rightarrow> fila r = [] | Inl e \<Rightarrow> True" by blast
    from ir[of n] n(1) have r: "rel_sum (=) R res (iterar p n s')" by simp
    from parado_rel[of R, OF vazio r] n(2)
    have "case iterar p n s' of Inr r \<Rightarrow> fila r = [] | Inl e \<Rightarrow> True" by simp
    from iterar_laco[OF refl this] r show ?thesis by blast
  qed
  have 2: "\<exists>res. laco p s = Some res" if "laco p s' = Some res'" for res'
  proof -
    from laco_iterar[OF that] obtain n where n: "iterar p n s' = res'"
      "case res' of Inr r \<Rightarrow> fila r = [] | Inl e \<Rightarrow> True" by blast
    from ir[of n] n(1) have r: "rel_sum (=) R (iterar p n s) res'" by simp
    from parado_rel[of R, OF vazio r] n(2)
    have "case iterar p n s of Inr r \<Rightarrow> fila r = [] | Inl e \<Rightarrow> True" by simp
    from iterar_laco[OF refl this] show ?thesis by blast
  qed
  show ?thesis
  proof (cases "laco p s")
    case None
    with 2 have "laco p s' = None" by (cases "laco p s'") auto
    with None show ?thesis by simp
  next
    case (Some res)
    from 1[OF Some] Some show ?thesis by auto
  qed
qed

lemma corresponde_vazio: "corresponde \<pi> s s' \<Longrightarrow> fila s = [] \<longleftrightarrow> fila s' = []"
  by (simp add: corresponde_def)

lemma corresponde_copia: "corresponde \<pi> s s' \<Longrightarrow> copia \<pi> s s'"
  by (simp add: corresponde_def)

lemma rel_option_mono2:
  assumes "rel_option (rel_sum (=) R) x y" and "\<And>a b. R a b \<Longrightarrow> Q a b"
  shows "rel_option (rel_sum (=) Q) x y"
  using assms by (auto simp: option.rel_sel rel_sum_sel split: option.splits sum.splits)

lemma preparar_renomeia:
  assumes "copia \<pi> s s'"
  shows "corresponde \<pi> (preparar s) (preparar s')"
proof -
  from assms have m: "mem s' (\<pi> a) = mem s a" if "a \<in> set (tarefas s)" for a
    using that by (simp add: copia_def)
  have "sort_key (\<lambda>a. tempo_chegada (mem s' a)) (map \<pi> (tarefas s))
      = map \<pi> (sort_key (\<lambda>a. tempo_chegada (mem s a)) (tarefas s))"
    by (rule sort_renomeia) (simp add: m)
  with assms show ?thesis
    by (simp add: corresponde_def copia_def preparar_def ordenar_tarefas_def Let_def)
qed

lemma relogio_inicial_renomeia:
  assumes "corresponde \<pi> s s'" and "tarefas s \<noteq> []"
  shows "corresponde \<pi> (relogio_inicial s) (relogio_inicial s')"
proof -
  note d = correspondeD[OF assms(1)]
  from assms(2) have "hd (tarefas s) \<in> set (tarefas s)" by simp
  from d(5)[OF this] assms(2) d(3) have "mem s' (hd (tarefas s')) = mem s (hd (tarefas s))"
    by (simp add: hd_map)
  with assms(1) show ?thesis
    by (simp add: corresponde_def copia_def relogio_inicial_def)
qed

lemma escalonar_com_rel:
  assumes step: "\<And>s s'. corresponde \<pi> s s' \<Longrightarrow> rel_sum (=) (corresponde \<pi>) (p s) (p s')"
    and "copia \<pi> s s'"
  shows "rel_option (rel_sum (=) (copia \<pi>)) (escalonar_com p s) (escalonar_com p s')"
proof (cases "tarefas s = []")
  case True
  with assms(2) have "tarefas s' = []" by (simp add: copia_def)
  with True corresponde_copia[OF preparar_renomeia[OF assms(2)]] show ?thesis
    by (simp add: escalonar_com_def Let_def)
next
  case False
  with assms(2) have f': "tarefas s' \<noteq> []" by (simp add: copia_def)
  from False have "tarefas (preparar s) \<noteq> []" by simp
  from relogio_inicial_renomeia[OF preparar_renomeia[OF assms(2)] this]
  have "corresponde \<pi> (relogio_inicial (preparar s)) (relogio_inicial (preparar s'))" .
  from laco_rel[of "corresponde \<pi>" p, OF step corresponde_vazio this]
  have "rel_option (rel_sum (=) (corresponde \<pi>))
      (laco p (relogio_inicial (preparar s))) (laco p (relogio_inicial (preparar s')))" .
  then have "rel_option (rel_sum (=) (copia \<pi>))
      (laco p (relogio_inicial (preparar s))) (laco p (relogio_inicial (preparar s')))"
    by (rule rel_option_mono2) (rule corresponde_copia)
  with False f' show ?thesis by (simp add: escalonar_com_def Let_def)
qed

lemma escalonar_renomeia:
  assumes "copia \<pi> s s'"
  shows "rel_option (rel_sum (=) (copia \<pi>)) (escalonar c s) (escalonar c s')"
  unfolding escalonar_def by (rule escalonar_com_rel[OF passo_renomeia assms])

lemma escalonar_com_rel_geral:
  assumes step: "\<And>s s'. R s s' \<Longrightarrow> rel_sum (=) R (p s) (p s')"
    and rc: "\<And>s s'. R s s' \<Longrightarrow> corresponde \<pi> s s'"
    and init: "tarefas s \<noteq> [] \<Longrightarrow> R (relogio_inicial (preparar s)) (relogio_inicial (preparar s'))"
    and "copia \<pi> s s'"
  shows "rel_option (rel_sum (=) (copia \<pi>)) (escalonar_com p s) (escalonar_com p s')"
proof (cases "tarefas s = []")
  case True
  with assms(4) have "tarefas s' = []" by (simp add: copia_def)
  with True corresponde_copia[OF preparar_renomeia[OF assms(4)]] show ?thesis
    by (simp add: escalonar_com_def Let_def)
next
  case False
  with assms(4) have f': "tarefas s' \<noteq> []" by (simp add: copia_def)
  have vazio: "fila x = [] \<longleftrightarrow> fila x' = []" if "R x x'" for x x'
    using corresponde_vazio[OF rc[OF that]] .
  from laco_rel[of R p, OF step vazio init[OF False]]
  have "rel_option (rel_sum (=) R)
      (laco p (relogio_inicial (preparar s))) (laco p (relogio_inicial (preparar s')))" .
  then have "rel_option (rel_sum (=) (copia \<pi>))
      (laco p (relogio_inicial (preparar s))) (laco p (relogio_inicial (preparar s')))"
    by (rule rel_option_mono2) (rule corresponde_copia[OF rc])
  with False f' show ?thesis by (simp add: escalonar_com_def Let_def)
qed

subsection \<open>Non-preemptive priority under a renaming\<close>

lemma PrioridadeNP_passo_renomeia:
  assumes "corresponde \<pi> s s'"
  shows "rel_sum (=) (corresponde \<pi>) (PrioridadeNP_passo s) (PrioridadeNP_passo s')"
proof (cases "tarefas_que_chegaram s = []")
  case True
  with assms show ?thesis
    by (simp add: PrioridadeNP_passo_def chegaram_renomeia[OF assms] corresponde_def copia_def)
next
  case False
  note d = correspondeD[OF assms]
  note ch = chegaram_renomeia[OF assms]
  let ?o = "sort_key (\<lambda>a. - prioridade (mem s a)) (tarefas_que_chegaram s)"
  let ?a = "hd ?o"
  have m: "mem s' (\<pi> a) = mem s a" if "a \<in> set (tarefas_que_chegaram s)" for a
    using that set_chegaram[of s] corresponde_fila[OF assms] by blast
  have o: "sort_key (\<lambda>a. - prioridade (mem s' a)) (map \<pi> (tarefas_que_chegaram s)) = map \<pi> ?o"
    by (rule sort_renomeia) (simp add: m)
  from False have h: "hd (map \<pi> ?o) = \<pi> ?a" by (intro hd_map) simp
  from hd_sort_mem[OF False] set_chegaram[of s] have af: "?a \<in> set (fila s)" by blast
  with d(2) have at: "?a \<in> set (tarefas s)" by blast
  have u: "((mem s')(\<pi> ?a := t)) (\<pi> b) = ((mem s)(?a := t)) b" if "b \<in> set (tarefas s)" for b t
    using d(1) at that d(5)[OF that] by (rule mem_upd_renomeia)
  from remove1_renomeia[OF d(1) at d(2)] d(4)
  have r: "remove1 (\<pi> ?a) (fila s') = map \<pi> (remove1 ?a (fila s))" by simp
  from d(2) have ss: "set (remove1 ?a (fila s)) \<subseteq> set (tarefas s)"
    by (auto dest: notin_set_remove1)
  from False d r ss show ?thesis
    by (simp add: PrioridadeNP_passo_def Let_def ch o h d(5)[OF at] atualizar_def
        corresponde_def copia_def u del: fun_upd_apply)
qed

lemma PrioridadeNP_renomeia:
  assumes "copia \<pi> s s'"
  shows "rel_option (rel_sum (=) (copia \<pi>))
     (EscalonadorPrioridadeNP_escalonar s) (EscalonadorPrioridadeNP_escalonar s')"
  unfolding EscalonadorPrioridadeNP_escalonar_def
  by (rule escalonar_com_rel[OF PrioridadeNP_passo_renomeia assms])

subsection \<open>SJF under a renaming\<close>

lemma SJF_executar_renomeia:
  assumes "corresponde \<pi> s s'" and "a \<in> set (tarefas s)"
  shows "corresponde \<pi> (SJF_executar s a) (SJF_executar s' (\<pi> a))"
proof -
  note d = correspondeD[OF assms(1)]
  have u: "((mem s')(\<pi> a := t)) (\<pi> b) = ((mem s)(a := t)) b" if "b \<in> set (tarefas s)" for b t
    using d(1) assms(2) that d(5)[OF that] by (rule mem_upd_renomeia)
  from d show ?thesis
    by (simp add: SJF_executar_def Let_def d(5)[OF assms(2)] atualizar_def
        corresponde_def copia_def u del: fun_upd_apply)
qed

lemma SJF_passo_renomeia:
  assumes "corresponde_SJF \<pi> s s'"
  shows "rel_sum (=) (corresponde_SJF \<pi>) (SJF_passo s) (SJF_passo s')"
proof -
  from assms have c: "corresponde \<pi> s s'" by (simp add: corresponde_SJF_def)
  note d = correspondeD[OF c]
  note ch = chegaram_renomeia[OF c]
  show ?thesis
  proof (cases "tarefas_que_chegaram s = []")
    case True
    show ?thesis
    proof (cases "tarefa s")
      case None
      with assms True show ?thesis
        by (simp add: SJF_passo_def Let_def ch corresponde_SJF_def)
    next
      case (Some a)
      with assms have a: "a \<in> set (tarefas s)" "tarefa s' = Some (\<pi> a)"
        by (simp_all add: corresponde_SJF_def)
      from SJF_executar_renomeia[OF c a(1)] a
      have "corresponde_SJF \<pi> (SJF_executar s a) (SJF_executar s' (\<pi> a))"
        using Some by (simp add: corresponde_SJF_def)
      with True Some a(2) show ?thesis by (simp add: SJF_passo_def Let_def ch)
    qed
  next
    case False
    let ?o = "sort_key (\<lambda>a. duracao (mem s a)) (tarefas_que_chegaram s)"
    let ?a = "hd ?o"
    have m: "mem s' (\<pi> a) = mem s a" if "a \<in> set (tarefas_que_chegaram s)" for a
      using that set_chegaram[of s] corresponde_fila[OF c] by blast
    have o: "sort_key (\<lambda>a. duracao (mem s' a)) (map \<pi> (tarefas_que_chegaram s)) = map \<pi> ?o"
      by (rule sort_renomeia) (simp add: m)
    from False have h: "hd (map \<pi> ?o) = \<pi> ?a" by (intro hd_map) simp
    from hd_sort_mem[OF False] set_chegaram[of s] have af: "?a \<in> set (fila s)" by blast
    with d(2) have at: "?a \<in> set (tarefas s)" by blast
    let ?s1 = "s\<lparr>tarefa := Some ?a, fila := remove1 ?a (fila s)\<rparr>"
    let ?s1' = "s'\<lparr>tarefa := Some (\<pi> ?a), fila := remove1 (\<pi> ?a) (fila s')\<rparr>"
    from remove1_renomeia[OF d(1) at d(2)] d(4)
    have "remove1 (\<pi> ?a) (fila s') = map \<pi> (remove1 ?a (fila s))" by simp
    moreover from d(2) have "set (remove1 ?a (fila s)) \<subseteq> set (tarefas s)"
      by (auto dest: notin_set_remove1)
    ultimately have c1: "corresponde \<pi> ?s1 ?s1'" using d by (simp add: corresponde_def copia_def)
    from at have "?a \<in> set (tarefas ?s1)" by simp
    from SJF_executar_renomeia[OF c1 this] at
    have "corresponde_SJF \<pi> (SJF_executar ?s1 ?a) (SJF_executar ?s1' (\<pi> ?a))"
      by (simp add: corresponde_SJF_def)
    with False show ?thesis by (simp add: SJF_passo_def Let_def ch o h)
  qed
qed

lemma SJF_renomeia:
  assumes "copia \<pi> s s'"
  shows "rel_option (rel_sum (=) (copia \<pi>))
     (EscalonadorSJF_escalonar s) (EscalonadorSJF_escalonar s')"
  unfolding EscalonadorSJF_escalonar_def
proof (rule escalonar_com_rel_geral[of "corresponde_SJF \<pi>", OF SJF_passo_renomeia])
  show "corresponde \<pi> x x'" if "corresponde_SJF \<pi> x x'" for x x'
    using that by (simp add: corresponde_SJF_def)
  from assms show c: "copia \<pi> (s\<lparr>tarefa := None\<rparr>) (s'\<lparr>tarefa := None\<rparr>)"
    by (simp add: copia_def)
  assume "tarefas (s\<lparr>tarefa := None\<rparr>) \<noteq> []"
  then have "tarefas (preparar (s\<lparr>tarefa := None\<rparr>)) \<noteq> []" by simp
  from relogio_inicial_renomeia[OF preparar_renomeia[OF c] this]
  show "corresponde_SJF \<pi> (relogio_inicial (preparar (s\<lparr>tarefa := None\<rparr>)))
      (relogio_inicial (preparar (s'\<lparr>tarefa := None\<rparr>)))"
    by (simp add: corresponde_SJF_def)
qed

subsection \<open>FIFO under a renaming\<close>

lemma tarefas_FIFO_corpo [simp]: "tarefas (FIFO_corpo s a) = tarefas s"
  by (simp add: FIFO_corpo_def atualizar_def Let_def)

lemma FIFO_corpo_renomeia:
  assumes "copia \<pi> s s'" and "a \<in> set (tarefas s)"
  shows "copia \<pi> (FIFO_corpo s a) (FIFO_corpo s' (\<pi> a))"
proof -
  from assms(1) have i: "inj_on \<pi> (set (tarefas s))"
    and m: "\<And>b. b \<in> set (tarefas s) \<Longrightarrow> mem s' (\<pi> b) = mem s b"
    by (simp_all add: copia_def)
  have u: "((mem s')(\<pi> a := t)) (\<pi> b) = ((mem s)(a := t)) b" if "b \<in> set (tarefas s)" for b t
    using i assms(2) that m[OF that] by (rule mem_upd_renomeia)
  from assms(1) show ?thesis
    by (simp add: FIFO_corpo_def Let_def m[OF assms(2)] atualizar_def copia_def u
        del: fun_upd_apply)
qed

lemma foldl_FIFO_renomeia:
  assumes "copia \<pi> s s'" and "set xs \<subseteq> set (tarefas s)"
  shows "copia \<pi> (foldl FIFO_corpo s xs) (foldl FIFO_corpo s' (map \<pi> xs))"
  using assms
proof (induction xs arbitrary: s s')
  case Nil
  then show ?case by simp
next
  case (Cons x xs)
  from Cons.prems have "copia \<pi> (FIFO_corpo s x) (FIFO_corpo s' (\<pi> x))"
    by (intro FIFO_corpo_renomeia) simp_all
  moreover from Cons.prems(2) have "set xs \<subseteq> set (tarefas (FIFO_corpo s x))" by simp
  ultimately show ?case using Cons.IH by simp
qed

lemma ordenar_tarefas_renomeia:
  assumes "copia \<pi> s s'"
  shows "copia \<pi> (ordenar_tarefas s) (ordenar_tarefas s')"
proof -
  from assms have m: "mem s' (\<pi> a) = mem s a" if "a \<in> set (tarefas s)" for a
    using that by (simp add: copia_def)
  have "sort_key (\<lambda>a. tempo_chegada (mem s' a)) (map \<pi> (tarefas s))
      = map \<pi> (sort_key (\<lambda>a. tempo_chegada (mem s a)) (tarefas s))"
    by (rule sort_renomeia) (simp add: m)
  with assms show ?thesis by (simp add: copia_def ordenar_tarefas_def)
qed

lemma relogio_inicial_copia:
  assumes "copia \<pi> s s'" and "tarefas s \<noteq> []"
  shows "copia \<pi> (relogio_inicial s) (relogio_inicial s')"
proof -
  from assms(2) have "hd (tarefas s) \<in> set (tarefas s)" by simp
  with assms have "mem s' (hd (tarefas s')) = mem s (hd (tarefas s))"
    by (simp add: copia_def hd_map)
  with assms(1) show ?thesis by (simp add: copia_def relogio_inicial_def)
qed

lemma FIFO_renomeia:
  assumes "copia \<pi> s s'"
  shows "copia \<pi> (EscalonadorFIFO_escalonar s) (EscalonadorFIFO_escalonar s')"
proof -
  let ?o = "ordenar_tarefas s" and ?o' = "ordenar_tarefas s'"
  from ordenar_tarefas_renomeia[OF assms] have c: "copia \<pi> ?o ?o'" .
  then have t: "tarefas ?o' = map \<pi> (tarefas ?o)" by (simp add: copia_def)
  show ?thesis
  proof (cases "tarefas ?o = []")
    case True
    with t c show ?thesis by (simp add: EscalonadorFIFO_escalonar_def Let_def)
  next
    case False
    from relogio_inicial_copia[OF c False]
    have "copia \<pi> (relogio_inicial ?o) (relogio_inicial ?o')" .
    from foldl_FIFO_renomeia[OF this, of "tarefas ?o"]
    have "copia \<pi> (foldl FIFO_corpo (relogio_inicial ?o) (tarefas ?o))
        (foldl FIFO_corpo (relogio_inicial ?o') (map \<pi> (tarefas ?o)))" by simp
    with False t show ?thesis by (simp add: EscalonadorFIFO_escalonar_def Let_def)
  qed
qed

subsection \<open>The task list is only sorted\<close>

lemma passo_tarefas: "passo c s = Inr s' \<Longrightarrow> tarefas s' = tarefas s"
  by (cases rule: passo_cases) auto

lemma PrioridadeNP_passo_tarefas: "PrioridadeNP_passo s = Inr s' \<Longrightarrow> tarefas s' = tarefas s"
  by (auto simp: PrioridadeNP_passo_def Let_def atualizar_def split: if_splits)

lemma SJF_passo_tarefas: "SJF_passo s = Inr s' \<Longrightarrow> tarefas s' = tarefas s"
  by (cases rule: SJF_passo_cases) auto

lemma escalonar_com_tarefas:
  assumes "escalonar_com p s = Some (Inr r)"
    and step: "\<And>x x'. p x = Inr x' \<Longrightarrow> tarefas x' = tarefas x"
  shows "set (tarefas r) = set (tarefas s)"
  using assms(1)
proof (cases rule: escalonar_com_cases)
  case vazio
  then show ?thesis by simp
next
  case laco
  let ?I = "\<lambda>x. set (tarefas x) = set (tarefas s)"
  have "?I (relogio_inicial (preparar s))" by simp
  from laco_inv[of p _ r ?I, OF laco(2) this] step show ?thesis by simp
qed

lemma foldl_FIFO_tarefas [simp]: "tarefas (foldl FIFO_corpo s xs) = tarefas s"
  by (induction xs arbitrary: s) simp_all

lemma FIFO_tarefas: "set (tarefas (EscalonadorFIFO_escalonar s)) = set (tarefas s)"
  by (simp add: EscalonadorFIFO_escalonar_def Let_def ordenar_tarefas_def)

lemma copia_mesmos:
  assumes "copia \<pi> r r'" and "set (tarefas r) = set as"
  shows "mesmos_resultados \<pi> as r r'"
  using assms by (simp add: copia_def mesmos_resultados_def)

lemma rel_mesmos:
  assumes "rel_option (rel_sum (=) (copia \<pi>)) x y"
    and "\<And>r. x = Some (Inr r) \<Longrightarrow> set (tarefas r) = set as"
  shows "rel_option (rel_sum (=) (mesmos_resultados \<pi> as)) x y"
proof (cases x)
  case None
  with assms(1) show ?thesis by (cases y) simp_all
next
  case (Some u)
  with assms(1) obtain v where v: "y = Some v" "rel_sum (=) (copia \<pi>) u v"
    by (cases y) simp_all
  show ?thesis
  proof (cases u)
    case (Inl e)
    with v Some show ?thesis by (cases v) simp_all
  next
    case (Inr r)
    with v obtain r' where r': "v = Inr r'" "copia \<pi> r r'" by (cases v) simp_all
    from assms(2) Some Inr have "set (tarefas r) = set as" by simp
    from copia_mesmos[OF r'(2) this] Some Inr v(1) r'(1) show ?thesis by simp
  qed
qed

text \<open>
  C9. Two schedulers of the same class and parameters that hold structurally identical,
  independently constructed copies of one task list behave alike: either both runs do
  not return, or both raise the same exception, or both return, and then corresponding
  tasks have the same finish time and the same burst list and the accumulated overheads
  are equal. This holds for the nine quantum-based classes, SJF, the non-preemptive
  priority scheduler and FIFO. The result does not depend on the identity of the task
  objects, only on their contents and their order in the list.
\<close>

theorem two_run_determinism:
  assumes "copia \<pi> s s'"
  shows "rel_option (rel_sum (=) (mesmos_resultados \<pi> (tarefas s)))
           (escalonar c s) (escalonar c s')
    \<and> rel_option (rel_sum (=) (mesmos_resultados \<pi> (tarefas s)))
           (EscalonadorSJF_escalonar s) (EscalonadorSJF_escalonar s')
    \<and> rel_option (rel_sum (=) (mesmos_resultados \<pi> (tarefas s)))
           (EscalonadorPrioridadeNP_escalonar s) (EscalonadorPrioridadeNP_escalonar s')
    \<and> mesmos_resultados \<pi> (tarefas s)
           (EscalonadorFIFO_escalonar s) (EscalonadorFIFO_escalonar s')"
proof (intro conjI)
  show "rel_option (rel_sum (=) (mesmos_resultados \<pi> (tarefas s)))
           (escalonar c s) (escalonar c s')"
  proof (rule rel_mesmos[OF escalonar_renomeia[OF assms]])
    fix r assume "escalonar c s = Some (Inr r)"
    then show "set (tarefas r) = set (tarefas s)"
      unfolding escalonar_def by (rule escalonar_com_tarefas) (rule passo_tarefas)
  qed
  show "rel_option (rel_sum (=) (mesmos_resultados \<pi> (tarefas s)))
           (EscalonadorSJF_escalonar s) (EscalonadorSJF_escalonar s')"
  proof (rule rel_mesmos[OF SJF_renomeia[OF assms]])
    fix r assume "EscalonadorSJF_escalonar s = Some (Inr r)"
    then have "set (tarefas r) = set (tarefas (s\<lparr>tarefa := None\<rparr>))"
      unfolding EscalonadorSJF_escalonar_def
      by (rule escalonar_com_tarefas) (rule SJF_passo_tarefas)
    then show "set (tarefas r) = set (tarefas s)" by simp
  qed
  show "rel_option (rel_sum (=) (mesmos_resultados \<pi> (tarefas s)))
           (EscalonadorPrioridadeNP_escalonar s) (EscalonadorPrioridadeNP_escalonar s')"
  proof (rule rel_mesmos[OF PrioridadeNP_renomeia[OF assms]])
    fix r assume "EscalonadorPrioridadeNP_escalonar s = Some (Inr r)"
    then show "set (tarefas r) = set (tarefas s)"
      unfolding EscalonadorPrioridadeNP_escalonar_def
      by (rule escalonar_com_tarefas) (rule PrioridadeNP_passo_tarefas)
  qed
  show "mesmos_resultados \<pi> (tarefas s)
           (EscalonadorFIFO_escalonar s) (EscalonadorFIFO_escalonar s')"
    by (rule copia_mesmos[OF FIFO_renomeia[OF assms] FIFO_tarefas])
qed

theorem two_run_determinism_witness:
  "copia (\<lambda>a. a + 5) cenario_RR cenario_RR_copia
   \<and> (\<exists>r r'. escalonar RoundRobin cenario_RR = Some (Inr r)
          \<and> escalonar RoundRobin cenario_RR_copia = Some (Inr r')
          \<and> tempo_final (mem r' 5) = tempo_final (mem r 0)
          \<and> tempo_final (mem r' 6) = tempo_final (mem r 1)
          \<and> tempos_execucao (mem r' 5) = tempos_execucao (mem r 0)
          \<and> tempos_execucao (mem r' 6) = tempos_execucao (mem r 1)
          \<and> sobrecarga_total r' = sobrecarga_total r)"
proof -
  have t: "tarefas cenario_RR = [0, 1]" "tarefas cenario_RR_copia = [5, 6]"
    "mem cenario_RR_copia 5 = mem cenario_RR 0" "mem cenario_RR_copia 6 = mem cenario_RR 1"
    "sobrecarga_total cenario_RR_copia = sobrecarga_total cenario_RR"
    "tempo_atual cenario_RR_copia = tempo_atual cenario_RR"
    "quantum cenario_RR_copia = quantum cenario_RR"
    "quantum_atual cenario_RR_copia = quantum_atual cenario_RR"
    by code_simp+
  then have c: "copia (\<lambda>a. a + 5) cenario_RR cenario_RR_copia"
    by (simp add: copia_def)
  have "case escalonar RoundRobin cenario_RR of Some (Inr r) \<Rightarrow> True | _ \<Rightarrow> False"
    by code_simp
  then obtain r where r: "escalonar RoundRobin cenario_RR = Some (Inr r)"
    using retorna by blast
  from two_run_determinism[OF c, of RoundRobin] r
  obtain r' where r': "escalonar RoundRobin cenario_RR_copia = Some (Inr r')"
    "mesmos_resultados (\<lambda>a. a + 5) (tarefas cenario_RR) r r'"
    by (cases "escalonar RoundRobin cenario_RR_copia")
       (auto simp: rel_sum.simps)
  from r'(2) t(1) have "tempo_final (mem r' 5) = tempo_final (mem r 0)"
    "tempo_final (mem r' 6) = tempo_final (mem r 1)"
    "tempos_execucao (mem r' 5) = tempos_execucao (mem r 0)"
    "tempos_execucao (mem r' 6) = tempos_execucao (mem r 1)"
    "sobrecarga_total r' = sobrecarga_total r"
    by (simp_all add: mesmos_resultados_def)
  with c r r'(1) show ?thesis by blast
qed

section \<open>Scenarios\<close>

text \<open>
  C1. Claim: for every scheduling algorithm, after \<^verbatim>\<open>escalonar\<close> returns the burst
  lengths recorded on a task add up to the task's duration.
  SJF breaks it: while the queue is non-empty and nothing has arrived, its loop body
  runs the previously selected task again. With A (duration 2, arrival 0) and
  B (duration 1, arrival 5), A is given the bursts [0,2), [2,4), [4,6), six time units
  for a duration of two, and B runs [6,7).
\<close>

theorem SJF_rerun_bursts:
  "(case EscalonadorSJF_escalonar cenario_SJF of
      Some (Inr r) \<Rightarrow>
        tempos_execucao (mem r 0) = [(0, 2), (2, 4), (4, 6)]
        \<and> tempos_execucao (mem r 1) = [(6, 7)]
        \<and> duracao (mem r 0) = 2
        \<and> soma_bursts (mem r 0) = 6
        \<and> map fst (finais r) = [0, 0, 0, 1]
    | _ \<Rightarrow> False)"
  by code_simp

text \<open>
  C2. Claim: the non-preemptive priority scheduler chooses, among the arrived tasks, one
  whose priority value is the minimum, and runs it to completion in one burst.
  The code sorts the arrived tasks by priority in descending order and takes the first:
  with A (priority 1) and B (priority 5) both arrived at 0, the first iteration binds
  \<^verbatim>\<open>tarefa\<close> to B, and the run gives B the burst [0,1) and A the burst [1,2).
\<close>

theorem PrioridadeNP_selects_maximum:
  "(case PrioridadeNP_passo (relogio_inicial (preparar cenario_NP)) of
      Inr s1 \<Rightarrow> tarefa s1 = Some 1 | Inl e \<Rightarrow> False)
   \<and> prioridade (mem cenario_NP 0) = 1 \<and> prioridade (mem cenario_NP 1) = 5
   \<and> (case EscalonadorPrioridadeNP_escalonar cenario_NP of
        Some (Inr r) \<Rightarrow>
          tempos_execucao (mem r 1) = [(0, 1)] \<and> tempos_execucao (mem r 0) = [(1, 2)]
      | _ \<Rightarrow> False)"
  by code_simp

text \<open>
  C3. Claim: Round-Robin with quantum 2 on A (5, 0) and B (3, 0) produces the bursts
  A[0,2), B[2,4), A[4,6), B[6.3,7.3), A[7.3,8.3) and the finish times B = 7.3, A = 8.3.
  The run does not produce them: B's first burst starts at 2.3 and A's second at 4.6.
\<close>

theorem cenario_RR_not_as_claimed:
  "\<not> (case EscalonadorRoundRobin_escalonar cenario_RR of
        Some (Inr r) \<Rightarrow>
          tempos_execucao (mem r 0)
            = [(0, 2), (4, 6), (arredondar (73 / 10), arredondar (83 / 10))]
          \<and> tempos_execucao (mem r 1)
            = [(2, 4), (arredondar (63 / 10), arredondar (73 / 10))]
          \<and> tempo_final (mem r 1) = Some (arredondar (73 / 10))
          \<and> tempo_final (mem r 0) = Some (arredondar (83 / 10))
      | _ \<Rightarrow> False)"
  by code_simp

text \<open>
  C3, amended. The 0.3 overhead follows every burst that leaves work, the first one
  included, and the additions are binary64 additions. With the numbers written as Python
  prints them, the bursts are A[0,2), B[2.3,4.3), A[4.6,6.6),
  B[6.8999999999999995,7.8999999999999995), A[7.8999999999999995,8.899999999999999), the
  finish times are B = 7.8999999999999995 and A = 8.899999999999999, and the accumulated
  overhead is 0.8999999999999999, the sum \<^verbatim>\<open>0.3 + 0.3 + 0.3\<close> of the three preemptions. The
  last four numbers are not the binary64 numbers 6.9, 7.9, 8.9 and 0.9; their
  exact values are stated too.
\<close>

theorem cenario_RR_bursts:
  "(case EscalonadorRoundRobin_escalonar cenario_RR of
      Some (Inr r) \<Rightarrow>
        tempos_execucao (mem r 0)
          = [(0, 2), (arredondar (46 / 10), arredondar (66 / 10)),
             (arredondar (78999999999999995 / 10 ^ 16), arredondar (8899999999999999 / 10 ^ 15))]
        \<and> tempos_execucao (mem r 1)
          = [(arredondar (23 / 10), arredondar (43 / 10)),
             (arredondar (68999999999999995 / 10 ^ 16), arredondar (78999999999999995 / 10 ^ 16))]
        \<and> tempo_final (mem r 1) = Some (arredondar (78999999999999995 / 10 ^ 16))
        \<and> tempo_final (mem r 0) = Some (arredondar (8899999999999999 / 10 ^ 15))
        \<and> sobrecarga_total r = arredondar (8999999999999999 / 10 ^ 16)
        \<and> sobrecarga_total r
            = mais (mais (mais 0 (arredondar (3 / 10))) (arredondar (3 / 10))) (arredondar (3 / 10))
        \<and> tempo_atual r = arredondar (8899999999999999 / 10 ^ 15)
    | _ \<Rightarrow> False)
   \<and> arredondar (68999999999999995 / 10 ^ 16) = 7768709357214105 / 2 ^ 50
   \<and> arredondar (78999999999999995 / 10 ^ 16) = 8894609264056729 / 2 ^ 50
   \<and> arredondar (8899999999999999 / 10 ^ 15) = 1252563646362419 / 2 ^ 47
   \<and> arredondar (8999999999999999 / 10 ^ 16) = 2026619832316723 / 2 ^ 51
   \<and> arredondar (69 / 10) \<noteq> arredondar (68999999999999995 / 10 ^ 16)
   \<and> arredondar (79 / 10) \<noteq> arredondar (78999999999999995 / 10 ^ 16)
   \<and> arredondar (89 / 10) \<noteq> arredondar (8899999999999999 / 10 ^ 15)
   \<and> arredondar (9 / 10) \<noteq> arredondar (8999999999999999 / 10 ^ 16)"
  by code_simp

text \<open>
  C4. Claim: for every scheduler, at the moment \<^verbatim>\<open>tempo_final\<close> is assigned the task's
  remaining time is 0. The comments of the source say that \<^verbatim>\<open>tempo_restante\<close> is the time
  left to complete the task and is decremented as the task executes, and the nine
  quantum-based loops do so. FIFO, SJF and the non-preemptive priority scheduler never
  write it: FIFO on A (duration 5) and B (duration 3) assigns A's finish time with
  remaining time 5 and B's with remaining time 3, and both tasks end finished with
  their whole duration remaining. Round-Robin on the same two tasks assigns both
  finish times at remaining time 0.
\<close>

theorem tempo_final_not_at_zero:
  "finais (EscalonadorFIFO_escalonar cenario_FIFO) = [(0, 5), (1, 3)]
   \<and> \<not> list_all (\<lambda>(a, x). x = 0) (finais (EscalonadorFIFO_escalonar cenario_FIFO))
   \<and> map (\<lambda>a. (tempo_final (mem (EscalonadorFIFO_escalonar cenario_FIFO) a),
                  tempo_restante (mem (EscalonadorFIFO_escalonar cenario_FIFO) a))) [0, 1]
       = [(Some 5, 5), (Some 8, 3)]
   \<and> (case escalonar RoundRobin cenario_RR of
         Some (Inr r) \<Rightarrow>
           finais r = [(1, 0), (0, 0)]
           \<and> map (\<lambda>a. tempo_restante (mem r a)) [0, 1] = [0, 0]
       | _ \<Rightarrow> False)"
  by code_simp



text \<open>
  C7. Claim: in the quantum-based schedulers the first dispatch of a task adds to
  \<^verbatim>\<open>tempo_em_espera\<close> the gap between the start of the burst and the task's arrival.
  The code subtracts 0, not the arrival time, when the task has no previous burst:
  the single task A (duration 1, arrival 3) starts at 3, the moment it arrives, and
  its waiting time becomes 3 instead of 0.
\<close>

theorem first_burst_wait_from_zero:
  "(case escalonar RoundRobin cenario_espera of
      Some (Inr r) \<Rightarrow>
        tempos_execucao (mem r 0) = [(3, 4)]
        \<and> tempo_chegada (mem r 0) = 3
        \<and> tempo_em_espera (mem r 0) = 3
    | _ \<Rightarrow> False)"
  by code_simp

end
